theory Spec2Isabelle
  imports Main "HOL-Library.Multiset" "HOL-Library.Sublist"
begin

section \<open>Data model\<close>

text \<open>
  Go strings are byte sequences: a \<^typ>\<open>string\<close> here is the list of the bytes of the
  Go string, \<^typ>\<open>char\<close> being the 8-bit byte.  A Go function can return normally, return
  an error value, or panic at run time (a slice or an index out of range); the three
  outcomes are the three constructors of \<open>result\<close>.
\<close>

datatype ('e, 'a) result = Panic | Err 'e | Ok 'a

datatype BlockKind =
  BlockSyntax | BlockPackage | BlockOption | BlockImport | BlockMessage
  | BlockEnum | BlockService | BlockExtend | BlockComment

fun BlockKind_String :: "BlockKind \<Rightarrow> string" where
  "BlockKind_String BlockSyntax = ''syntax''"
| "BlockKind_String BlockPackage = ''package''"
| "BlockKind_String BlockOption = ''option''"
| "BlockKind_String BlockImport = ''import''"
| "BlockKind_String BlockMessage = ''message''"
| "BlockKind_String BlockEnum = ''enum''"
| "BlockKind_String BlockService = ''service''"
| "BlockKind_String BlockExtend = ''extend''"
| "BlockKind_String BlockComment = ''comment''"

datatype Section =
  SectionHeader | SectionService | SectionRequestResponse | SectionCore
  | SectionHelper | SectionUnreferenced

record RPC =
  rpcName :: string
  RequestType :: string
  ResponseType :: string

record Block =
  Kind :: BlockKind
  Name :: string
  Comments :: string
  DeclText :: string
  Section :: Section
  RPCs :: "RPC list"
  Consumer :: string

text \<open>A block literal of the source leaves the unnamed fields at their zero values.\<close>

definition newBlock :: "BlockKind \<Rightarrow> string \<Rightarrow> string \<Rightarrow> string \<Rightarrow> Block" where
  "newBlock k n c d =
     \<lparr>Kind = k, Name = n, Comments = c, DeclText = d, Section = SectionHeader,
      RPCs = [], Consumer = []\<rparr>"

section \<open>The Go string library, on bytes\<close>

definition HasPrefix :: "string \<Rightarrow> string \<Rightarrow> bool" where
  "HasPrefix s p = (take (length p) s = p)"

definition HasSuffix :: "string \<Rightarrow> string \<Rightarrow> bool" where
  "HasSuffix s p = (length p \<le> length s \<and> drop (length s - length p) s = p)"

fun Contains :: "string \<Rightarrow> string \<Rightarrow> bool" where
  "Contains [] sub = (sub = [])"
| "Contains (c # cs) sub = (HasPrefix (c # cs) sub \<or> Contains cs sub)"

text \<open>\<open>IndexByte\<close> and \<open>LastIndexByte\<close> return \<open>-1\<close> in Go when the byte is absent:
  \<open>None\<close> here.\<close>

fun IndexByte :: "string \<Rightarrow> char \<Rightarrow> nat option" where
  "IndexByte [] b = None"
| "IndexByte (c # cs) b =
     (if c = b then Some 0 else map_option Suc (IndexByte cs b))"

definition LastIndexByte :: "string \<Rightarrow> char \<Rightarrow> nat option" where
  "LastIndexByte s b =
     (case IndexByte (rev s) b of None \<Rightarrow> None | Some i \<Rightarrow> Some (length s - 1 - i))"

definition CountByte :: "string \<Rightarrow> char \<Rightarrow> nat" where
  "CountByte s b = length (filter (\<lambda>c. c = b) s)"

text \<open>\<open>strings.Split(s, "\n")\<close>: the empty string gives one empty line.\<close>

fun SplitLines :: "string \<Rightarrow> string list" where
  "SplitLines [] = [[]]"
| "SplitLines (c # cs) =
     (if c = CHR 0x0A then [] # SplitLines cs
      else (case SplitLines cs of [] \<Rightarrow> [[c]] | l # ls \<Rightarrow> (c # l) # ls))"

text \<open>\<open>strings.Join(lines, "\n")\<close>.\<close>

fun JoinLines :: "string list \<Rightarrow> string" where
  "JoinLines [] = []"
| "JoinLines [l] = l"
| "JoinLines (l # ls) = l @ [CHR 0x0A] @ JoinLines ls"

text \<open>\<open>TrimLeft\<close>, \<open>TrimRight\<close> and \<open>Trim\<close> are only called with cutsets of ASCII
  bytes, for which Go compares byte by byte.\<close>

definition TrimLeft :: "string \<Rightarrow> string \<Rightarrow> string" where
  "TrimLeft s cutset = dropWhile (\<lambda>c. c \<in> set cutset) s"

definition TrimRight :: "string \<Rightarrow> string \<Rightarrow> string" where
  "TrimRight s cutset = rev (dropWhile (\<lambda>c. c \<in> set cutset) (rev s))"

definition Trim :: "string \<Rightarrow> string \<Rightarrow> string" where
  "Trim s cutset = TrimRight (TrimLeft s cutset) cutset"

text \<open>
  \<open>strings.TrimSpace\<close> removes leading and trailing white space as Unicode defines it
  (\<open>unicode.IsSpace\<close>).  On the UTF-8 bytes of the string these are the six ASCII bytes
  and the encodings of U+0085, U+00A0, U+1680, U+2000 to U+200A, U+2028, U+2029, U+202F,
  U+205F and U+3000.
\<close>

definition spaceRunes :: "string list" where
  "spaceRunes =
     [[CHR 0x09], [CHR 0x0A], [CHR 0x0B], [CHR 0x0C], [CHR 0x0D], [CHR 0x20],
      [CHR 0xC2, CHR 0x85], [CHR 0xC2, CHR 0xA0], [CHR 0xE1, CHR 0x9A, CHR 0x80],
      [CHR 0xE2, CHR 0x80, CHR 0x80], [CHR 0xE2, CHR 0x80, CHR 0x81],
      [CHR 0xE2, CHR 0x80, CHR 0x82], [CHR 0xE2, CHR 0x80, CHR 0x83],
      [CHR 0xE2, CHR 0x80, CHR 0x84], [CHR 0xE2, CHR 0x80, CHR 0x85],
      [CHR 0xE2, CHR 0x80, CHR 0x86], [CHR 0xE2, CHR 0x80, CHR 0x87],
      [CHR 0xE2, CHR 0x80, CHR 0x88], [CHR 0xE2, CHR 0x80, CHR 0x89],
      [CHR 0xE2, CHR 0x80, CHR 0x8A], [CHR 0xE2, CHR 0x80, CHR 0xA8],
      [CHR 0xE2, CHR 0x80, CHR 0xA9], [CHR 0xE2, CHR 0x80, CHR 0xAF],
      [CHR 0xE2, CHR 0x81, CHR 0x9F], [CHR 0xE3, CHR 0x80, CHR 0x80]]"

text \<open>The number of bytes of the white-space rune the string starts with, \<open>0\<close> if it
  starts with none.\<close>

definition leadingSpace :: "string \<Rightarrow> nat" where
  "leadingSpace s =
     (case filter (HasPrefix s) spaceRunes of [] \<Rightarrow> 0 | r # _ \<Rightarrow> length r)"

definition trailingSpace :: "string \<Rightarrow> nat" where
  "trailingSpace s =
     (case filter (HasSuffix s) spaceRunes of [] \<Rightarrow> 0 | r # _ \<Rightarrow> length r)"

function TrimSpaceLeft :: "string \<Rightarrow> string" where
  "TrimSpaceLeft s =
     (if leadingSpace s = 0 then s else TrimSpaceLeft (drop (leadingSpace s) s))"
  by pat_completeness auto

function TrimSpaceRight :: "string \<Rightarrow> string" where
  "TrimSpaceRight s =
     (if trailingSpace s = 0 then s
      else TrimSpaceRight (take (length s - trailingSpace s) s))"
  by pat_completeness auto

lemma leadingSpace_le: "leadingSpace s \<le> length s"
proof (cases "filter (HasPrefix s) spaceRunes")
  case Nil
  then show ?thesis by (simp add: leadingSpace_def)
next
  case (Cons r rs)
  then have "r \<in> set (filter (HasPrefix s) spaceRunes)" by simp
  then have "HasPrefix s r" by simp
  then have "length r \<le> length s"
    by (metis HasPrefix_def length_take min.cobounded1)
  with Cons show ?thesis by (simp add: leadingSpace_def)
qed

lemma trailingSpace_le: "trailingSpace s \<le> length s"
proof (cases "filter (HasSuffix s) spaceRunes")
  case Nil
  then show ?thesis by (simp add: trailingSpace_def)
next
  case (Cons r rs)
  then have "r \<in> set (filter (HasSuffix s) spaceRunes)" by simp
  then have "HasSuffix s r" by simp
  then have "length r \<le> length s" by (simp add: HasSuffix_def)
  with Cons show ?thesis by (simp add: trailingSpace_def)
qed

lemma leadingSpace_decr: "leadingSpace s \<noteq> 0 \<Longrightarrow> length s - leadingSpace s < length s"
  using leadingSpace_le [of s] by arith

lemma trailingSpace_decr: "trailingSpace s \<noteq> 0 \<Longrightarrow> length s - trailingSpace s < length s"
  using trailingSpace_le [of s] by arith

termination TrimSpaceLeft
  by (relation "measure length") (simp_all add: leadingSpace_decr)

termination TrimSpaceRight
proof (relation "measure length")
  show "wf (measure length)" by simp
next
  fix s :: string
  assume "trailingSpace s \<noteq> 0"
  then have "length s - trailingSpace s < length s" by (rule trailingSpace_decr)
  then show "(take (length s - trailingSpace s) s, s) \<in> measure length" by simp
qed

declare TrimSpaceLeft.simps [simp del] TrimSpaceRight.simps [simp del]

definition TrimSpace :: "string \<Rightarrow> string" where
  "TrimSpace s = TrimSpaceRight (TrimSpaceLeft s)"


section \<open>The scanner\<close>

datatype scan_error = ExpectedKeyword nat string | UnknownKeyword string nat

definition byte :: "char \<Rightarrow> nat" where
  "byte c = of_char c"

definition atEnd :: "string \<Rightarrow> nat \<Rightarrow> bool" where
  "atEnd c pos = (pos \<ge> length c)"

definition peek :: "string \<Rightarrow> nat \<Rightarrow> char" where
  "peek c pos = (if atEnd c pos then CHR 0x00 else c ! pos)"

definition peekAt :: "string \<Rightarrow> nat \<Rightarrow> nat \<Rightarrow> char" where
  "peekAt c pos offset = (if pos + offset \<ge> length c then CHR 0x00 else c ! (pos + offset))"

text \<open>A slice expression \<open>s[i:j]\<close> panics unless \<open>i \<le> j \<le> len(s)\<close>.\<close>

definition slice :: "string \<Rightarrow> nat \<Rightarrow> nat \<Rightarrow> string option" where
  "slice s i j = (if i \<le> j \<and> j \<le> length s then Some (take (j - i) (drop i s)) else None)"

function skipToEndOfLine_loop :: "string \<Rightarrow> nat \<Rightarrow> nat" where
  "skipToEndOfLine_loop c pos =
     (if \<not> atEnd c pos \<and> peek c pos \<noteq> CHR 0x0A then skipToEndOfLine_loop c (pos + 1)
      else pos)"
  by pat_completeness auto
termination
  by (relation "measure (\<lambda>(c, pos). length c - pos)") (auto simp: atEnd_def)

declare skipToEndOfLine_loop.simps [simp del]

definition skipToEndOfLine :: "string \<Rightarrow> nat \<Rightarrow> nat" where
  "skipToEndOfLine c pos =
     (let p = skipToEndOfLine_loop c pos in if \<not> atEnd c p then p + 1 else p)"

function skipBlockComment_loop :: "string \<Rightarrow> nat \<Rightarrow> nat" where
  "skipBlockComment_loop c pos =
     (if \<not> atEnd c pos then
        (if peek c pos = CHR ''*'' \<and> peekAt c pos 1 = CHR ''/'' then pos + 2
         else skipBlockComment_loop c (pos + 1))
      else pos)"
  by pat_completeness auto
termination
  by (relation "measure (\<lambda>(c, pos). length c - pos)") (auto simp: atEnd_def)

declare skipBlockComment_loop.simps [simp del]

definition skipBlockComment :: "string \<Rightarrow> nat \<Rightarrow> nat" where
  "skipBlockComment c pos = skipBlockComment_loop c (pos + 2)"

function skipString_loop :: "string \<Rightarrow> nat \<Rightarrow> char \<Rightarrow> nat" where
  "skipString_loop c pos quote =
     (if \<not> atEnd c pos then
        (if peek c pos = CHR 0x5C then skipString_loop c (pos + 2) quote
         else if peek c pos = quote then pos + 1
         else skipString_loop c (pos + 1) quote)
      else pos)"
  by pat_completeness auto
termination
  by (relation "measure (\<lambda>(c, pos, q). length c - pos)") (auto simp: atEnd_def)

declare skipString_loop.simps [simp del]

definition skipString :: "string \<Rightarrow> nat \<Rightarrow> char \<Rightarrow> nat" where
  "skipString c pos quote = skipString_loop c (pos + 1) quote"

definition skipOneToken :: "string \<Rightarrow> nat \<Rightarrow> nat" where
  "skipOneToken c pos =
     (if peek c pos = CHR 0x22 \<or> peek c pos = CHR 0x27 then skipString c pos (peek c pos)
      else if peek c pos = CHR ''/'' \<and> peekAt c pos 1 = CHR ''/'' then skipToEndOfLine c pos
      else if peek c pos = CHR ''/'' \<and> peekAt c pos 1 = CHR ''*'' then skipBlockComment c pos
      else pos + 1)"

lemma skipToEndOfLine_loop_ge: "pos \<le> skipToEndOfLine_loop c pos"
proof (induction c pos rule: skipToEndOfLine_loop.induct)
  case (1 c pos)
  show ?case
  proof (cases "\<not> atEnd c pos \<and> peek c pos \<noteq> CHR 0x0A")
    case True
    with "1.IH" have "pos + 1 \<le> skipToEndOfLine_loop c (pos + 1)" by simp
    with True show ?thesis by (subst skipToEndOfLine_loop.simps) simp
  next
    case False
    then show ?thesis by (subst skipToEndOfLine_loop.simps) auto
  qed
qed

lemma skipToEndOfLine_gt: "\<not> atEnd c pos \<Longrightarrow> pos < skipToEndOfLine c pos"
  using skipToEndOfLine_loop_ge [of pos c]
  by (auto simp: skipToEndOfLine_def Let_def atEnd_def)

lemma skipBlockComment_loop_ge: "pos \<le> skipBlockComment_loop c pos"
proof (induction c pos rule: skipBlockComment_loop.induct)
  case (1 c pos)
  show ?case
  proof (cases "\<not> atEnd c pos \<and> \<not> (peek c pos = CHR ''*'' \<and> peekAt c pos 1 = CHR ''/'')")
    case True
    with "1.IH" have "pos + 1 \<le> skipBlockComment_loop c (pos + 1)" by simp
    with True show ?thesis by (subst skipBlockComment_loop.simps) simp
  next
    case False
    then show ?thesis by (subst skipBlockComment_loop.simps) auto
  qed
qed

lemma skipBlockComment_gt: "pos < skipBlockComment c pos"
  using skipBlockComment_loop_ge [of "pos + 2" c] by (simp add: skipBlockComment_def)

lemma skipString_loop_ge: "pos \<le> skipString_loop c pos q"
proof (induction c pos q rule: skipString_loop.induct)
  case (1 c pos q)
  show ?case
  proof (cases "atEnd c pos")
    case True
    then show ?thesis by (subst skipString_loop.simps) simp
  next
    case notEnd: False
    show ?thesis
    proof (cases "peek c pos = CHR 0x5C")
      case True
      with notEnd "1.IH"(1) have "pos + 2 \<le> skipString_loop c (pos + 2) q" by simp
      with notEnd True show ?thesis by (subst skipString_loop.simps) simp
    next
      case False
      with notEnd "1.IH"(2) have "peek c pos \<noteq> q \<Longrightarrow> pos + 1 \<le> skipString_loop c (pos + 1) q"
        by simp
      with notEnd False show ?thesis by (subst skipString_loop.simps) auto
    qed
  qed
qed

lemma skipString_gt: "pos < skipString c pos q"
  using skipString_loop_ge [of "pos + 1" c q] by (simp add: skipString_def)

lemma skipOneToken_gt: "\<not> atEnd c pos \<Longrightarrow> pos < skipOneToken c pos"
  by (simp add: skipOneToken_def skipString_gt skipToEndOfLine_gt skipBlockComment_gt)


function readUntilSemicolon :: "string \<Rightarrow> nat \<Rightarrow> nat" where
  "readUntilSemicolon c pos =
     (if \<not> atEnd c pos then
        (if peek c pos = CHR '';'' then pos + 1
         else readUntilSemicolon c (skipOneToken c pos))
      else pos)"
  by pat_completeness auto
termination
proof (relation "measure (\<lambda>(c, pos). length c - pos)")
  show "wf (measure (\<lambda>(c, pos). length c - pos))" by simp
next
  fix c pos
  assume "\<not> atEnd c pos"
  then have "pos < skipOneToken c pos" "pos < length c"
    by (simp_all add: skipOneToken_gt atEnd_def)
  then show "((c, skipOneToken c pos), (c, pos)) \<in> measure (\<lambda>(c, pos). length c - pos)"
    by simp
qed

declare readUntilSemicolon.simps [simp del]

text \<open>The nesting depth is a Go \<open>int\<close>; it changes by one per byte read, so it stays
  far from the bounds of a 64-bit integer and is an \<^typ>\<open>int\<close> here.\<close>

function readUntilSemicolonWithBraces :: "string \<Rightarrow> nat \<Rightarrow> int \<Rightarrow> nat" where
  "readUntilSemicolonWithBraces c pos depth =
     (if \<not> atEnd c pos then
        (if peek c pos = CHR 0x22 \<or> peek c pos = CHR 0x27 then
           readUntilSemicolonWithBraces c (skipString c pos (peek c pos)) depth
         else if peek c pos = CHR ''/'' \<and> peekAt c pos 1 = CHR ''/'' then
           readUntilSemicolonWithBraces c (skipToEndOfLine c pos) depth
         else if peek c pos = CHR ''/'' \<and> peekAt c pos 1 = CHR ''*'' then
           readUntilSemicolonWithBraces c (skipBlockComment c pos) depth
         else if peek c pos = CHR ''{'' then
           readUntilSemicolonWithBraces c (pos + 1) (depth + 1)
         else if peek c pos = CHR ''}'' then
           readUntilSemicolonWithBraces c (pos + 1) (depth - 1)
         else if peek c pos = CHR '';'' \<and> depth \<le> 0 then pos + 1
         else readUntilSemicolonWithBraces c (pos + 1) depth)
      else pos)"
  by pat_completeness auto
termination
proof (relation "measure (\<lambda>(c, pos, d). length c - pos)", goal_cases)
  case 1
  show ?case by simp
next
  case (2 c pos depth)
  then show ?case using skipString_gt [of pos c "peek c pos"] by (simp add: atEnd_def)
next
  case (3 c pos depth)
  then show ?case using skipToEndOfLine_gt [of c pos] by (simp add: atEnd_def)
next
  case (4 c pos depth)
  then show ?case using skipBlockComment_gt [of pos c] by (simp add: atEnd_def)
qed (simp_all add: atEnd_def)

declare readUntilSemicolonWithBraces.simps [simp del]

function readBracedBlock :: "string \<Rightarrow> nat \<Rightarrow> int \<Rightarrow> nat" where
  "readBracedBlock c pos depth =
     (if \<not> atEnd c pos then
        (if peek c pos = CHR 0x22 \<or> peek c pos = CHR 0x27 then
           readBracedBlock c (skipString c pos (peek c pos)) depth
         else if peek c pos = CHR ''/'' \<and> peekAt c pos 1 = CHR ''/'' then
           readBracedBlock c (skipToEndOfLine c pos) depth
         else if peek c pos = CHR ''/'' \<and> peekAt c pos 1 = CHR ''*'' then
           readBracedBlock c (skipBlockComment c pos) depth
         else if peek c pos = CHR ''{'' then readBracedBlock c (pos + 1) (depth + 1)
         else if peek c pos = CHR ''}'' then
           (if depth - 1 = 0 then pos + 1 else readBracedBlock c (pos + 1) (depth - 1))
         else readBracedBlock c (pos + 1) depth)
      else pos)"
  by pat_completeness auto
termination
proof (relation "measure (\<lambda>(c, pos, d). length c - pos)", goal_cases)
  case 1
  show ?case by simp
next
  case (2 c pos depth)
  then show ?case using skipString_gt [of pos c "peek c pos"] by (simp add: atEnd_def)
next
  case (3 c pos depth)
  then show ?case using skipToEndOfLine_gt [of c pos] by (simp add: atEnd_def)
next
  case (4 c pos depth)
  then show ?case using skipBlockComment_gt [of pos c] by (simp add: atEnd_def)
qed (simp_all add: atEnd_def)

declare readBracedBlock.simps [simp del]

function skipHorizontal :: "string \<Rightarrow> nat \<Rightarrow> nat" where
  "skipHorizontal c pos =
     (if \<not> atEnd c pos \<and> (peek c pos = CHR '' '' \<or> peek c pos = CHR 0x09)
      then skipHorizontal c (pos + 1) else pos)"
  by pat_completeness auto
termination
  by (relation "measure (\<lambda>(c, pos). length c - pos)") (auto simp: atEnd_def)

declare skipHorizontal.simps [simp del]

text \<open>\<open>consumeTrailingComment\<close> returns the text it consumed and the new position.\<close>

definition consumeTrailingComment :: "string \<Rightarrow> nat \<Rightarrow> (string \<times> nat) option" where
  "consumeTrailingComment c start =
     (let pos = skipHorizontal c start in
      if \<not> atEnd c pos \<and> peek c pos = CHR ''/'' \<and> peekAt c pos 1 = CHR ''/'' then
        (case slice c start (skipToEndOfLine c pos) of
           None \<Rightarrow> None
         | Some t \<Rightarrow> Some (t, skipToEndOfLine c pos))
      else Some ([], start))"

function collectComments :: "string \<Rightarrow> nat \<Rightarrow> string \<Rightarrow> (string \<times> nat) option" where
  "collectComments c pos buf =
     (if \<not> atEnd c pos then
        (if peek c pos = CHR '' '' \<or> peek c pos = CHR 0x09 \<or> peek c pos = CHR 0x0D
            \<or> peek c pos = CHR 0x0A then
           collectComments c (pos + 1) (buf @ [peek c pos])
         else if peek c pos = CHR ''/'' \<and> peekAt c pos 1 = CHR ''/'' then
           (case slice c pos (skipToEndOfLine c pos) of
              None \<Rightarrow> None
            | Some t \<Rightarrow> collectComments c (skipToEndOfLine c pos) (buf @ t))
         else if peek c pos = CHR ''/'' \<and> peekAt c pos 1 = CHR ''*'' then
           (case slice c pos (skipBlockComment c pos) of
              None \<Rightarrow> None
            | Some t \<Rightarrow> collectComments c (skipBlockComment c pos) (buf @ t))
         else Some (buf, pos))
      else Some (buf, pos))"
  by pat_completeness auto
termination
proof (relation "measure (\<lambda>(c, pos, b). length c - pos)", goal_cases)
  case 1
  show ?case by simp
next
  case (2 c pos buf)
  then show ?case by (simp add: atEnd_def)
next
  case (3 c pos buf t)
  then show ?case using skipToEndOfLine_gt [of c pos] by (simp add: atEnd_def)
next
  case (4 c pos buf t)
  then show ?case using skipBlockComment_gt [of pos c] by (simp add: atEnd_def)
qed

declare collectComments.simps [simp del]


definition isIdentChar :: "char \<Rightarrow> bool" where
  "isIdentChar c =
     ((byte (CHR ''a'') \<le> byte c \<and> byte c \<le> byte (CHR ''z''))
      \<or> (byte (CHR ''A'') \<le> byte c \<and> byte c \<le> byte (CHR ''Z''))
      \<or> (byte (CHR ''0'') \<le> byte c \<and> byte c \<le> byte (CHR ''9''))
      \<or> c = CHR ''_'')"

definition keywordList :: "string list" where
  "keywordList =
     [''syntax'', ''package'', ''import'', ''option'', ''message'', ''enum'', ''service'',
      ''extend'']"

text \<open>\<open>matchKeyword\<close> returns the empty string when no keyword matches; the slice
  \<open>s.content[s.pos:]\<close> it starts with panics when the position is beyond the end.\<close>

definition matchKeyword :: "string \<Rightarrow> nat \<Rightarrow> string option" where
  "matchKeyword c pos =
     (case slice c pos (length c) of
        None \<Rightarrow> None
      | Some rest \<Rightarrow>
          Some (case filter (\<lambda>kw. HasPrefix rest kw \<and> length rest > length kw
                                  \<and> \<not> isIdentChar (rest ! length kw)) keywordList of
                  [] \<Rightarrow> []
                | kw # _ \<Rightarrow> kw))"

text \<open>
  \<open>for _, c := range rest\<close> decodes UTF-8: \<open>decodeRune\<close> gives the code point and the
  number of bytes of the first rune, an invalid or truncated encoding being the rune
  U+FFFD of width 1 (\<open>utf8.DecodeRuneInString\<close>).
\<close>

definition cont :: "char \<Rightarrow> bool" where
  "cont c = (0x80 \<le> byte c \<and> byte c \<le> 0xBF)"

definition runeError :: "nat \<times> nat" where
  "runeError = (0xFFFD, 1)"

fun decodeRune :: "string \<Rightarrow> nat \<times> nat" where
  "decodeRune [] = (0xFFFD, 0)"
| "decodeRune (c0 # rest) =
     (if byte c0 < 0x80 then (byte c0, 1)
      else if 0xC2 \<le> byte c0 \<and> byte c0 \<le> 0xDF then
        (case rest of
           c1 # _ \<Rightarrow>
             if cont c1 then ((byte c0 mod 32) * 64 + byte c1 mod 64, 2) else runeError
         | _ \<Rightarrow> runeError)
      else if 0xE0 \<le> byte c0 \<and> byte c0 \<le> 0xEF then
        (case rest of
           c1 # c2 # _ \<Rightarrow>
             if (if byte c0 = 0xE0 then 0xA0 else 0x80) \<le> byte c1
                \<and> byte c1 \<le> (if byte c0 = 0xED then 0x9F else 0xBF) \<and> cont c2
             then ((byte c0 mod 16) * 4096 + (byte c1 mod 64) * 64 + byte c2 mod 64, 3)
             else runeError
         | _ \<Rightarrow> runeError)
      else if 0xF0 \<le> byte c0 \<and> byte c0 \<le> 0xF4 then
        (case rest of
           c1 # c2 # c3 # _ \<Rightarrow>
             if (if byte c0 = 0xF0 then 0x90 else 0x80) \<le> byte c1
                \<and> byte c1 \<le> (if byte c0 = 0xF4 then 0x8F else 0xBF) \<and> cont c2 \<and> cont c3
             then ((byte c0 mod 8) * 262144 + (byte c1 mod 64) * 4096
                   + (byte c2 mod 64) * 64 + byte c3 mod 64, 4)
             else runeError
         | _ \<Rightarrow> runeError)
      else runeError)"

lemma decodeRune_width: "s \<noteq> [] \<Longrightarrow> 0 < snd (decodeRune s)"
  by (cases s) (auto simp: runeError_def split: list.splits)

text \<open>The loop of \<open>extractDeclName\<close> over the runes of \<open>rest\<close>: \<open>byte(c)\<close> keeps the
  low eight bits of the code point, and \<open>WriteRune\<close> writes a decoded rune back as the
  bytes it was read from.\<close>

function identPrefix :: "string \<Rightarrow> string" where
  "identPrefix s =
     (if s = [] then []
      else if isIdentChar (char_of (fst (decodeRune s) mod 256)) \<or> fst (decodeRune s) = 46
      then take (snd (decodeRune s)) s @ identPrefix (drop (snd (decodeRune s)) s)
      else [])"
  by pat_completeness auto
termination
proof (relation "measure length", goal_cases)
  case 1
  show ?case by simp
next
  case (2 s)
  then show ?case using decodeRune_width [of s] by (cases s) simp_all
qed

declare identPrefix.simps [simp del]

text \<open>In \<open>extractDeclName\<close> only the first slice, \<open>text[len(keyword):]\<close>, can be out of
  range; every other slice is at an index that \<open>IndexByte\<close> returned.\<close>

definition extractDeclName :: "string \<Rightarrow> string \<Rightarrow> string option" where
  "extractDeclName keyword text0 =
     (case slice text0 (length keyword) (length text0) of
        None \<Rightarrow> None
      | Some rest0 \<Rightarrow>
          Some
           (let rest = TrimLeft rest0 [CHR '' '', CHR 0x09, CHR 0x0D, CHR 0x0A] in
            if keyword = ''import'' then
              (let rest1 =
                     (if HasPrefix rest ''public '' \<or> HasPrefix rest ''weak '' then
                        (case IndexByte rest (CHR '' '') of
                           Some idx \<Rightarrow> TrimLeft (drop idx rest) [CHR '' '', CHR 0x09]
                         | None \<Rightarrow> rest)
                      else rest)
               in if length rest1 > 0 \<and> (hd rest1 = CHR 0x22 \<or> hd rest1 = CHR 0x27) then
                    (case IndexByte (tl rest1) (hd rest1) of
                       Some e \<Rightarrow> take e (tl rest1)
                     | None \<Rightarrow> rest1)
                  else rest1)
            else if keyword = ''option'' then
              (case IndexByte rest (CHR ''='') of
                 Some eqIdx \<Rightarrow> TrimSpace (take eqIdx rest)
               | None \<Rightarrow> rest)
            else if keyword = ''syntax'' then
              (case IndexByte rest (CHR ''='') of
                 Some eqIdx \<Rightarrow>
                   Trim (TrimRight (TrimSpace (drop (eqIdx + 1) rest)) [CHR '';''])
                     [CHR 0x22, CHR 0x27, CHR '' '']
               | None \<Rightarrow> rest)
            else if keyword = ''package'' then
              (case IndexByte rest (CHR '';'') of
                 Some semiIdx \<Rightarrow> TrimSpace (take semiIdx rest)
               | None \<Rightarrow> TrimSpace rest)
            else identPrefix rest))"

text \<open>The \<open>switch\<close> of \<open>readDeclaration\<close>: the kind of the block and the position after
  the declaration, \<open>None\<close> in the \<open>default\<close> case.\<close>

definition readBody :: "string \<Rightarrow> string \<Rightarrow> nat \<Rightarrow> (BlockKind \<times> nat) option" where
  "readBody keyword c pos =
     (if keyword = ''syntax'' then Some (BlockSyntax, readUntilSemicolon c pos)
      else if keyword = ''package'' then Some (BlockPackage, readUntilSemicolon c pos)
      else if keyword = ''import'' then Some (BlockImport, readUntilSemicolon c pos)
      else if keyword = ''option'' then
        Some (BlockOption, readUntilSemicolonWithBraces c pos 0)
      else if keyword = ''message'' then Some (BlockMessage, readBracedBlock c pos 0)
      else if keyword = ''enum'' then Some (BlockEnum, readBracedBlock c pos 0)
      else if keyword = ''service'' then Some (BlockService, readBracedBlock c pos 0)
      else if keyword = ''extend'' then Some (BlockExtend, readBracedBlock c pos 0)
      else None)"

definition readDeclaration :: "string \<Rightarrow> nat \<Rightarrow> (scan_error, Block \<times> nat) result" where
  "readDeclaration c pos =
     (case matchKeyword c pos of
        None \<Rightarrow> Panic
      | Some keyword \<Rightarrow>
          if keyword = [] then
            (case slice c pos (if pos + 40 > length c then length c else pos + 40) of
               None \<Rightarrow> Panic
             | Some ctx \<Rightarrow> Err (ExpectedKeyword pos ctx))
          else
            (case readBody keyword c pos of
               None \<Rightarrow> Err (UnknownKeyword keyword pos)
             | Some (kind, p1) \<Rightarrow>
                 (case slice c pos p1 of
                    None \<Rightarrow> Panic
                  | Some declText \<Rightarrow>
                      (case consumeTrailingComment c p1 of
                         None \<Rightarrow> Panic
                       | Some (trailing, p2) \<Rightarrow>
                           (case extractDeclName keyword (declText @ trailing) of
                              None \<Rightarrow> Panic
                            | Some name \<Rightarrow>
                                Ok (newBlock kind name [] (declText @ trailing), p2))))))"


lemma readUntilSemicolon_ge: "pos \<le> readUntilSemicolon c pos"
proof (induction c pos rule: readUntilSemicolon.induct)
  case (1 c pos)
  show ?case
  proof (cases "\<not> atEnd c pos \<and> peek c pos \<noteq> CHR '';''")
    case True
    with "1.IH" have "skipOneToken c pos \<le> readUntilSemicolon c (skipOneToken c pos)" by simp
    moreover from True have "pos < skipOneToken c pos" by (simp add: skipOneToken_gt)
    ultimately show ?thesis using True by (subst readUntilSemicolon.simps) simp
  next
    case False
    then show ?thesis by (subst readUntilSemicolon.simps) auto
  qed
qed

lemma readUntilSemicolon_gt: "\<not> atEnd c pos \<Longrightarrow> pos < readUntilSemicolon c pos"
  using readUntilSemicolon_ge [of "skipOneToken c pos" c] skipOneToken_gt [of c pos]
  by (subst readUntilSemicolon.simps) auto

lemma readUntilSemicolonWithBraces_ge: "pos \<le> readUntilSemicolonWithBraces c pos d"
proof (induction c pos d rule: readUntilSemicolonWithBraces.induct)
  case (1 c pos d)
  show ?case
  proof (cases "atEnd c pos")
    case True
    then show ?thesis by (subst readUntilSemicolonWithBraces.simps) simp
  next
    case False
    note gts = skipString_gt [of pos c "peek c pos"] skipToEndOfLine_gt [OF False]
      skipBlockComment_gt [of pos c]
    from False "1.IH" gts show ?thesis
      by (subst readUntilSemicolonWithBraces.simps) (auto simp del: One_nat_def)
  qed
qed

lemma readUntilSemicolonWithBraces_gt:
  "\<not> atEnd c pos \<Longrightarrow> pos < readUntilSemicolonWithBraces c pos d"
  using skipString_gt [of pos c "peek c pos"] skipToEndOfLine_gt [of c pos]
    skipBlockComment_gt [of pos c]
    readUntilSemicolonWithBraces_ge [of "skipString c pos (peek c pos)" c d]
    readUntilSemicolonWithBraces_ge [of "skipToEndOfLine c pos" c d]
    readUntilSemicolonWithBraces_ge [of "skipBlockComment c pos" c d]
    readUntilSemicolonWithBraces_ge [of "pos + 1" c "d + 1"]
    readUntilSemicolonWithBraces_ge [of "pos + 1" c "d - 1"]
    readUntilSemicolonWithBraces_ge [of "pos + 1" c d]
  by (subst readUntilSemicolonWithBraces.simps) (auto simp del: One_nat_def)

lemma readBracedBlock_ge: "pos \<le> readBracedBlock c pos d"
proof (induction c pos d rule: readBracedBlock.induct)
  case (1 c pos d)
  show ?case
  proof (cases "atEnd c pos")
    case True
    then show ?thesis by (subst readBracedBlock.simps) simp
  next
    case False
    note gts = skipString_gt [of pos c "peek c pos"] skipToEndOfLine_gt [OF False]
      skipBlockComment_gt [of pos c]
    from False "1.IH" gts show ?thesis
      by (subst readBracedBlock.simps) (auto simp del: One_nat_def)
  qed
qed

lemma readBracedBlock_gt: "\<not> atEnd c pos \<Longrightarrow> pos < readBracedBlock c pos d"
  using skipString_gt [of pos c "peek c pos"] skipToEndOfLine_gt [of c pos]
    skipBlockComment_gt [of pos c]
    readBracedBlock_ge [of "skipString c pos (peek c pos)" c d]
    readBracedBlock_ge [of "skipToEndOfLine c pos" c d]
    readBracedBlock_ge [of "skipBlockComment c pos" c d]
    readBracedBlock_ge [of "pos + 1" c "d + 1"]
    readBracedBlock_ge [of "pos + 1" c "d - 1"]
    readBracedBlock_ge [of "pos + 1" c d]
  by (subst readBracedBlock.simps) (auto simp del: One_nat_def)

lemma readBody_gt: "\<not> atEnd c pos \<Longrightarrow> readBody kw c pos = Some (k, p) \<Longrightarrow> pos < p"
  by (auto simp: readBody_def readUntilSemicolon_gt readUntilSemicolonWithBraces_gt
      readBracedBlock_gt split: if_splits)

lemma skipHorizontal_ge: "pos \<le> skipHorizontal c pos"
proof (induction c pos rule: skipHorizontal.induct)
  case (1 c pos)
  then show ?case by (subst skipHorizontal.simps) (auto simp del: One_nat_def)
qed

lemma skipToEndOfLine_ge: "pos \<le> skipToEndOfLine c pos"
  using skipToEndOfLine_loop_ge [of pos c] by (auto simp: skipToEndOfLine_def Let_def)

lemma consumeTrailingComment_ge: "consumeTrailingComment c p = Some (t, p') \<Longrightarrow> p \<le> p'"
  using skipHorizontal_ge [of p c] skipToEndOfLine_ge [of "skipHorizontal c p" c]
  by (auto simp: consumeTrailingComment_def Let_def split: if_splits option.splits)

lemma readDeclaration_gt:
  assumes "\<not> atEnd c pos" and "readDeclaration c pos = Ok (b, p)"
  shows "pos < p"
proof -
  from assms(2) obtain kw k p1 t where
    body: "readBody kw c pos = Some (k, p1)" and trail: "consumeTrailingComment c p1 = Some (t, p)"
    by (auto simp: readDeclaration_def split: option.splits if_splits)
  from readBody_gt [OF assms(1) body] consumeTrailingComment_ge [OF trail]
  show ?thesis by simp
qed

lemma collectComments_ge: "collectComments c pos buf = Some (cm, p) \<Longrightarrow> pos \<le> p"
proof (induction c pos buf rule: collectComments.induct)
  case (1 c pos buf)
  show ?case
  proof (cases "atEnd c pos")
    case True
    with "1.prems" show ?thesis by (subst (asm) collectComments.simps) simp
  next
    case False
    note gts = skipToEndOfLine_gt [OF False] skipBlockComment_gt [of pos c]
    from "1.prems" False "1.IH" gts show ?thesis
      by (subst (asm) collectComments.simps)
        (auto simp del: One_nat_def split: if_splits option.splits)
  qed
qed

function scan :: "string \<Rightarrow> nat \<Rightarrow> Block list \<Rightarrow> (scan_error, Block list) result" where
  "scan c pos blocks =
     (if \<not> atEnd c pos then
        (case collectComments c pos [] of
           None \<Rightarrow> Panic
         | Some (comments, p) \<Rightarrow>
             if atEnd c p then
               (if TrimSpace comments \<noteq> [] then
                  Ok (blocks @ [newBlock BlockComment [] comments []])
                else Ok blocks)
             else
               (case readDeclaration c p of
                  Panic \<Rightarrow> Panic
                | Err e \<Rightarrow> Err e
                | Ok (b, p') \<Rightarrow> scan c p' (blocks @ [b\<lparr>Comments := comments\<rparr>])))
      else Ok blocks)"
  by pat_completeness auto
termination
proof (relation "measure (\<lambda>(c, pos, bs). length c - pos)", goal_cases)
  case 1
  show ?case by simp
next
  case (2 c pos blocks x2 comments p x3 b p')
  then have "pos \<le> p" "p < p'" "p < length c"
    by (auto simp: collectComments_ge readDeclaration_gt atEnd_def)
  then show ?case by simp
qed

declare scan.simps [simp del]

definition ScanFile :: "string \<Rightarrow> (scan_error, Block list) result" where
  "ScanFile content = scan content 0 []"

text \<open>The states of the loop of \<open>scan\<close>: position and blocks read so far, at the head
  of an iteration.\<close>

inductive scanReaches :: "string \<Rightarrow> nat \<Rightarrow> Block list \<Rightarrow> bool" for c :: string where
  start: "scanReaches c 0 []"
| step: "scanReaches c pos bs \<Longrightarrow> \<not> atEnd c pos \<Longrightarrow> collectComments c pos [] = Some (cm, p)
    \<Longrightarrow> \<not> atEnd c p \<Longrightarrow> readDeclaration c p = Ok (b, p')
    \<Longrightarrow> scanReaches c p' (bs @ [b\<lparr>Comments := cm\<rparr>])"

section \<open>Regular expressions\<close>

text \<open>
  The source matches with Go's \<open>regexp\<close> package, whose matches are the leftmost ones
  and, among those, the one a backtracking matcher finds first: alternatives in order,
  repetitions greedy.  The expressions of this program repeat single character classes
  only (\<open>\s*\<close>, \<open>\w+\<close>, \<open>[=\-*#]{3,}\<close>), and their bounded repetitions of groups
  (\<open>{0,3}\<close>, \<open>{1,3}\<close>) are nested options, as \<open>regexp/syntax\<close> expands them.  The
  perl classes are ASCII in Go: \<open>\s\<close> is \<open>[\t\n\f\r ]\<close>, \<open>\w\<close> is \<open>[0-9A-Za-z_]\<close>,
  \<open>\d\<close> is \<open>[0-9]\<close>.  Go matches runes; on the bytes of the string the result is the
  same, since every expression starts with an ASCII literal or an anchor and every negated
  class is followed by an ASCII literal or an anchor.
\<close>

datatype rx =
  Lit string
  | Many "char \<Rightarrow> bool" nat
  | Opt rx
  | Cat rx rx
  | Alt rx rx
  | Cap nat rx
  | BeginLine
  | EndLine
  | BeginText
  | EndText

fun Seqs :: "rx list \<Rightarrow> rx" where
  "Seqs [] = Lit []"
| "Seqs [r] = r"
| "Seqs (r # rs) = Cat r (Seqs rs)"

fun Alts :: "rx list \<Rightarrow> rx" where
  "Alts [] = Lit []"
| "Alts [r] = r"
| "Alts (r # rs) = Alt r (Alts rs)"

definition reSpace :: "char \<Rightarrow> bool" where
  "reSpace c = (c = CHR 0x09 \<or> c = CHR 0x0A \<or> c = CHR 0x0C \<or> c = CHR 0x0D \<or> c = CHR '' '')"

definition reDigit :: "char \<Rightarrow> bool" where
  "reDigit c = (byte (CHR ''0'') \<le> byte c \<and> byte c \<le> byte (CHR ''9''))"

definition reWord :: "char \<Rightarrow> bool" where
  "reWord c = isIdentChar c"

definition reWordDot :: "char \<Rightarrow> bool" where
  "reWordDot c = (isIdentChar c \<or> c = CHR ''.'')"

type_synonym caps = "(nat \<times> string) list"

text \<open>\<open>tryDown n m f\<close>: the first success of \<open>f\<close> at \<open>m\<close>, \<open>m - 1\<close>, ..., \<open>n\<close>.\<close>

fun tryDown :: "nat \<Rightarrow> nat \<Rightarrow> (nat \<Rightarrow> 'a option) \<Rightarrow> 'a option" where
  "tryDown n 0 f = (if n = 0 then f 0 else None)"
| "tryDown n (Suc m) f =
     (if Suc m < n then None
      else (case f (Suc m) of Some x \<Rightarrow> Some x | None \<Rightarrow> tryDown n m f))"

text \<open>
  The matcher is in continuation-passing style.  Its state is the number of bytes
  consumed, the byte before the position (none at the start of the text), the rest of the
  text and the groups captured so far.
\<close>

fun rx_match ::
  "rx \<Rightarrow> nat \<Rightarrow> char option \<Rightarrow> string \<Rightarrow> caps
    \<Rightarrow> (nat \<Rightarrow> char option \<Rightarrow> string \<Rightarrow> caps \<Rightarrow> 'a option) \<Rightarrow> 'a option" where
  "rx_match (Lit l) i prev s cs k =
     (if HasPrefix s l then k (i + length l) (if l = [] then prev else Some (last l))
                              (drop (length l) s) cs
      else None)"
| "rx_match (Many p n) i prev s cs k =
     tryDown n (length (takeWhile p s))
       (\<lambda>m. k (i + m) (if m = 0 then prev else Some (s ! (m - 1))) (drop m s) cs)"
| "rx_match (Opt r) i prev s cs k =
     (case rx_match r i prev s cs k of Some x \<Rightarrow> Some x | None \<Rightarrow> k i prev s cs)"
| "rx_match (Cat r1 r2) i prev s cs k =
     rx_match r1 i prev s cs (\<lambda>i' prev' s' cs'. rx_match r2 i' prev' s' cs' k)"
| "rx_match (Alt r1 r2) i prev s cs k =
     (case rx_match r1 i prev s cs k of
        Some x \<Rightarrow> Some x
      | None \<Rightarrow> rx_match r2 i prev s cs k)"
| "rx_match (Cap n r) i prev s cs k =
     rx_match r i prev s cs (\<lambda>i' prev' s' cs'. k i' prev' s' ((n, take (i' - i) s) # cs'))"
| "rx_match BeginLine i prev s cs k =
     (if prev = None \<or> prev = Some (CHR 0x0A) then k i prev s cs else None)"
| "rx_match EndLine i prev s cs k =
     (if s = [] \<or> hd s = CHR 0x0A then k i prev s cs else None)"
| "rx_match BeginText i prev s cs k = (if prev = None then k i prev s cs else None)"
| "rx_match EndText i prev s cs k = (if s = [] then k i prev s cs else None)"

text \<open>The leftmost match at or after the current position: its start, its end, the byte
  before its end and the groups.\<close>

fun rx_search :: "rx \<Rightarrow> nat \<Rightarrow> char option \<Rightarrow> string \<Rightarrow> (nat \<times> nat \<times> char option \<times> caps) option" where
  "rx_search r i prev [] =
     rx_match r i prev [] [] (\<lambda>i' prev' s' cs'. Some (i, i', prev', cs'))"
| "rx_search r i prev (c # s) =
     (case rx_match r i prev (c # s) [] (\<lambda>i' prev' s' cs'. Some (i, i', prev', cs')) of
        Some m \<Rightarrow> Some m
      | None \<Rightarrow> rx_search r (i + 1) (Some c) s)"

definition MatchString :: "rx \<Rightarrow> string \<Rightarrow> bool" where
  "MatchString r s = (rx_search r 0 None s \<noteq> None)"

text \<open>The text of group \<open>n\<close> of a match, empty if the group took no part.\<close>

definition submatch :: "caps \<Rightarrow> nat \<Rightarrow> string" where
  "submatch cs n = (case map_of cs n of None \<Rightarrow> [] | Some t \<Rightarrow> t)"

text \<open>
  \<open>FindAllStringSubmatch(s, -1)\<close>: the successive matches, each search starting where the
  previous match ended.  After an empty match Go moves on by one rune; no expression of
  this program matches the empty string.
\<close>

function FindAll :: "rx \<Rightarrow> char option \<Rightarrow> string \<Rightarrow> caps list" where
  "FindAll r prev s =
     (case rx_search r 0 prev s of
        None \<Rightarrow> []
      | Some (b, e, prev', cs) \<Rightarrow>
          ((0, take (e - b) (drop b s)) # cs)
          # (if s = [] then []
             else if e \<le> b then
               (if b < length s then FindAll r (Some (s ! b)) (drop (b + 1) s) else [])
             else FindAll r prev' (drop e s)))"
  by pat_completeness auto
termination
  by (relation "measure (\<lambda>(r, prev, s). length s)") (auto intro: diff_less)

declare FindAll.simps [simp del]

definition FindAllStringSubmatch :: "rx \<Rightarrow> string \<Rightarrow> caps list" where
  "FindAllStringSubmatch r s = FindAll r None s"

text \<open>\<open>ReplaceAllString(s, "")\<close>: the text with every match removed.\<close>

function RemoveAll :: "rx \<Rightarrow> char option \<Rightarrow> string \<Rightarrow> string" where
  "RemoveAll r prev s =
     (case rx_search r 0 prev s of
        None \<Rightarrow> s
      | Some (b, e, prev', cs) \<Rightarrow>
          take b s
          @ (if s = [] then []
             else if e \<le> b then
               (if b < length s then s ! b # RemoveAll r (Some (s ! b)) (drop (b + 1) s) else [])
             else RemoveAll r prev' (drop e s)))"
  by pat_completeness auto
termination
  by (relation "measure (\<lambda>(r, prev, s). length s)") (auto intro: diff_less)

declare RemoveAll.simps [simp del]

definition rpcLineRe :: rx where
  "rpcLineRe =
     Seqs [BeginText, Many reSpace 0, Lit ''rpc'', Many reSpace 1, Cap 1 (Many reWord 1),
           Many reSpace 0, Lit ''('']"

definition streamOpt :: rx where
  "streamOpt = Opt (Cat (Lit ''stream'') (Many reSpace 1))"

definition rpcRe :: rx where
  "rpcRe =
     Seqs [Lit ''rpc'', Many reSpace 1, Cap 1 (Many reWord 1), Many reSpace 0, Lit ''('',
           Many reSpace 0, streamOpt, Cap 2 (Many reWordDot 1), Many reSpace 0, Lit '')'',
           Many reSpace 0, Lit ''returns'', Many reSpace 0, Lit ''('', Many reSpace 0,
           streamOpt, Cap 3 (Many reWordDot 1), Many reSpace 0, Lit '')'']"

section \<open>Sorting the RPCs of a service\<close>

record rpcEntry =
  entry_Comments :: string
  entry_RPCText :: string
  entry_Name :: string

text \<open>The variables of the loop of \<open>parseRPCEntries\<close>.\<close>

record parseState =
  entries :: "rpcEntry list"
  nonRPCLines :: "string list"
  commentBuf :: string
  rpcBuf :: string
  currentName :: string
  inRPC :: bool
  braceDepth :: int

definition flushEntry :: "parseState \<Rightarrow> parseState" where
  "flushEntry st =
     st\<lparr>entries := entries st
            @ [\<lparr>entry_Comments = commentBuf st, entry_RPCText = rpcBuf st,
                entry_Name = currentName st\<rparr>],
        commentBuf := [], rpcBuf := [], inRPC := False, braceDepth := 0\<rparr>"

definition braceDelta :: "string \<Rightarrow> int" where
  "braceDelta line = int (CountByte line (CHR ''{'')) - int (CountByte line (CHR ''}''))"

definition parseLine :: "parseState \<Rightarrow> string \<Rightarrow> parseState" where
  "parseLine st line =
     (let trimmed = TrimSpace line in
      if inRPC st then
        (let st1 = st\<lparr>rpcBuf := rpcBuf st @ line @ [CHR 0x0A],
                       braceDepth := braceDepth st + braceDelta line\<rparr>
         in if braceDepth st1 \<le> 0 \<and> (Contains trimmed '';'' \<or> Contains trimmed ''}'')
            then flushEntry st1 else st1)
      else
        (case rx_search rpcLineRe 0 None line of
           Some (b, e, prev, m) \<Rightarrow>
             (let st1 = st\<lparr>currentName := submatch m 1, inRPC := True,
                            braceDepth := braceDelta line,
                            rpcBuf := rpcBuf st @ line @ [CHR 0x0A]\<rparr>
              in if braceDepth st1 \<le> 0 \<and> Contains trimmed '';'' then flushEntry st1 else st1)
         | None \<Rightarrow>
             if HasPrefix trimmed ''//'' \<or> HasPrefix trimmed ''/*'' then
               st\<lparr>commentBuf := commentBuf st @ line @ [CHR 0x0A]\<rparr>
             else if trimmed = [] then
               (if length (commentBuf st) > 0
                then st\<lparr>commentBuf := commentBuf st @ line @ [CHR 0x0A]\<rparr> else st)
             else
               (let st1 =
                      (if length (commentBuf st) > 0 then
                         st\<lparr>nonRPCLines := nonRPCLines st
                                @ SplitLines (TrimRight (commentBuf st) [CHR 0x0A]),
                            commentBuf := []\<rparr>
                       else st)
                in st1\<lparr>nonRPCLines := nonRPCLines st1 @ [line]\<rparr>)))"

definition parseRPCEntries :: "string \<Rightarrow> rpcEntry list \<times> string list" where
  "parseRPCEntries body =
     (let st = foldl parseLine
                 \<lparr>entries = [], nonRPCLines = [], commentBuf = [], rpcBuf = [],
                  currentName = [], inRPC = False, braceDepth = 0\<rparr>
                 (SplitLines body);
          st' = (if inRPC st \<and> length (rpcBuf st) > 0 then
                   st\<lparr>entries := entries st
                          @ [\<lparr>entry_Comments = commentBuf st, entry_RPCText = rpcBuf st,
                              entry_Name = currentName st\<rparr>]\<rparr>
                 else st)
      in (entries st', nonRPCLines st'))"

definition rpcVerbPrefixes :: "string list" where
  "rpcVerbPrefixes =
     [''BatchCreate'', ''BatchDelete'', ''BatchGet'', ''BatchUpdate'',
      ''Create'', ''Delete'', ''Get'', ''List'', ''Update'',
      ''Watch'', ''Stream'', ''Search'',
      ''Set'', ''Add'', ''Remove'',
      ''Start'', ''Stop'', ''Run'', ''Check'', ''Cancel'']"

text \<open>\<open>unicode.IsUpper(rune(b))\<close> of a byte \<open>b\<close>: the byte is read as the code point of
  that number, and the upper-case letters below U+0100 are A to Z, U+00C0 to U+00D6 and
  U+00D8 to U+00DE.\<close>

definition IsUpper :: "char \<Rightarrow> bool" where
  "IsUpper c =
     ((0x41 \<le> byte c \<and> byte c \<le> 0x5A) \<or> (0xC0 \<le> byte c \<and> byte c \<le> 0xD6)
      \<or> (0xD8 \<le> byte c \<and> byte c \<le> 0xDE))"

definition stripsPrefix :: "string \<Rightarrow> string \<Rightarrow> bool" where
  "stripsPrefix name pfx =
     (HasPrefix name pfx \<and> length name > length pfx \<and> IsUpper (name ! length pfx))"

fun rpcGroupKey_loop :: "string list \<Rightarrow> string \<Rightarrow> string" where
  "rpcGroupKey_loop [] name = name"
| "rpcGroupKey_loop (pfx # ps) name =
     (if HasPrefix name pfx \<and> length name > length pfx then
        (if IsUpper (name ! length pfx) then drop (length pfx) name
         else rpcGroupKey_loop ps name)
      else rpcGroupKey_loop ps name)"

definition rpcGroupKey :: "string \<Rightarrow> string" where
  "rpcGroupKey name = rpcGroupKey_loop rpcVerbPrefixes name"

text \<open>Go compares strings byte by byte.\<close>

fun strLess :: "string \<Rightarrow> string \<Rightarrow> bool" where
  "strLess [] [] = False"
| "strLess [] (y # ys) = True"
| "strLess (x # xs) [] = False"
| "strLess (x # xs) (y # ys) = (byte x < byte y \<or> (x = y \<and> strLess xs ys))"

text \<open>
  \<open>sort.SliceStable\<close> and \<open>sort.Slice\<close> with a \<open>less\<close> function.  The model is the
  stable insertion sort.  The result of a stable sort does not depend on the algorithm
  when \<open>less\<close> is a strict weak order, as every \<open>less\<close> of this program is.
  \<open>sort.Slice\<close> is an insertion sort up to 12 elements; beyond that the order it gives
  to elements that compare equal is not specified by Go and the model keeps their order.
\<close>

fun insertStable :: "('a \<Rightarrow> 'a \<Rightarrow> bool) \<Rightarrow> 'a \<Rightarrow> 'a list \<Rightarrow> 'a list" where
  "insertStable lt x [] = [x]"
| "insertStable lt x (y # ys) =
     (if lt y x then y # insertStable lt x ys else x # y # ys)"

definition SliceStable :: "('a \<Rightarrow> 'a \<Rightarrow> bool) \<Rightarrow> 'a list \<Rightarrow> 'a list" where
  "SliceStable lt xs = foldr (insertStable lt) xs []"

definition alphaLess :: "rpcEntry \<Rightarrow> rpcEntry \<Rightarrow> bool" where
  "alphaLess a b = strLess (entry_Name a) (entry_Name b)"

definition groupedLess :: "rpcEntry \<Rightarrow> rpcEntry \<Rightarrow> bool" where
  "groupedLess a b =
     (if rpcGroupKey (entry_Name a) \<noteq> rpcGroupKey (entry_Name b)
      then strLess (rpcGroupKey (entry_Name a)) (rpcGroupKey (entry_Name b))
      else strLess (entry_Name a) (entry_Name b))"

definition entryText :: "rpcEntry \<Rightarrow> string" where
  "entryText e = (if entry_Comments e \<noteq> [] then entry_Comments e else []) @ entry_RPCText e"

definition rebuildService ::
  "string \<Rightarrow> nat \<Rightarrow> nat \<Rightarrow> string list \<Rightarrow> rpcEntry list \<Rightarrow> string" where
  "rebuildService declText openIdx closeIdx nonRPC es =
     take (openIdx + 1) declText
     @ [CHR 0x0A] @ concat (map (\<lambda>line. line @ [CHR 0x0A]) nonRPC) @ concat (map entryText es)
     @ drop closeIdx declText"

definition SortRPCsInService :: "string \<Rightarrow> string \<Rightarrow> string" where
  "SortRPCsInService declText mode =
     (case (IndexByte declText (CHR ''{''), LastIndexByte declText (CHR ''}'')) of
        (Some openIdx, Some closeIdx) \<Rightarrow>
          if closeIdx \<le> openIdx then declText
          else
            (case parseRPCEntries (take (closeIdx - (openIdx + 1)) (drop (openIdx + 1) declText)) of
               (es, nonRPC) \<Rightarrow>
                 if length es \<le> 1 then declText
                 else if mode = ''alpha'' then
                   rebuildService declText openIdx closeIdx nonRPC (SliceStable alphaLess es)
                 else if mode = ''grouped'' then
                   rebuildService declText openIdx closeIdx nonRPC (SliceStable groupedLess es)
                 else declText)
      | _ \<Rightarrow> declText)"

section \<open>References between declarations\<close>

definition optQualifier :: rx where
  "optQualifier =
     Opt (Alt (Cat (Lit ''repeated'') (Many reSpace 1)) (Cat (Lit ''optional'') (Many reSpace 1)))"

definition fieldTail :: "rx list" where
  "fieldTail =
     [Many reSpace 1, Many reWord 1, Many reSpace 0, Lit ''='', Many reSpace 0, Many reDigit 1]"

definition fieldRe :: rx where
  "fieldRe = Seqs ([BeginLine, Many reSpace 0, optQualifier, Cap 1 (Many reWordDot 1)] @ fieldTail)"

definition mapFieldRe :: rx where
  "mapFieldRe =
     Seqs [Lit ''map'', Many reSpace 0, Lit ''<'', Many reSpace 0, Many reWordDot 1,
           Many reSpace 0, Lit '','', Many reSpace 0, Cap 1 (Many reWordDot 1), Many reSpace 0,
           Lit ''>'', Many reSpace 0, Many reWord 1, Many reSpace 0, Lit ''='', Many reSpace 0,
           Many reDigit 1]"

definition oneofRe :: rx where
  "oneofRe =
     Seqs [Lit ''oneof'', Many reSpace 1, Many reWord 1, Many reSpace 0, Lit ''{'',
           Cap 1 (Many (\<lambda>c. c \<noteq> CHR ''}'') 0), Lit ''}'']"

definition oneofVariantRe :: rx where
  "oneofVariantRe = Seqs ([BeginLine, Many reSpace 0, Cap 1 (Many reWordDot 1)] @ fieldTail)"

definition ExtractRPCs :: "Block \<Rightarrow> RPC list" where
  "ExtractRPCs block =
     (if Kind block \<noteq> BlockService then []
      else map (\<lambda>m. \<lparr>rpcName = submatch m 1, RequestType = submatch m 2, ResponseType = submatch m 3\<rparr>)
             (FindAllStringSubmatch rpcRe (DeclText block)))"

definition extractBody :: "string \<Rightarrow> string" where
  "extractBody declText =
     (case (IndexByte declText (CHR ''{''), LastIndexByte declText (CHR ''}'')) of
        (Some start, Some end) \<Rightarrow>
          if end \<le> start then [] else take (end - (start + 1)) (drop (start + 1) declText)
      | _ \<Rightarrow> [])"

definition isScalarType :: "string \<Rightarrow> bool" where
  "isScalarType name =
     (name \<in> set [''double'', ''float'', ''int32'', ''int64'', ''uint32'', ''uint64'',
                   ''sint32'', ''sint64'', ''fixed32'', ''fixed64'', ''sfixed32'', ''sfixed64'',
                   ''bool'', ''string'', ''bytes''])"

text \<open>\<open>addType\<close>: the list \<open>types\<close> holds exactly the names that \<open>seen\<close> maps to true.\<close>

definition addType :: "string list \<Rightarrow> string \<Rightarrow> string list" where
  "addType types t =
     (if Contains t ''.'' then types
      else if t \<noteq> [] \<and> \<not> isScalarType t \<and> t \<notin> set types then types @ [t]
      else types)"

definition ExtractFieldTypes :: "Block \<Rightarrow> string list" where
  "ExtractFieldTypes block =
     (if Kind block \<noteq> BlockMessage \<and> Kind block \<noteq> BlockExtend then []
      else
        (let body = extractBody (DeclText block);
             t1 = foldl addType [] (map (\<lambda>m. submatch m 1) (FindAllStringSubmatch fieldRe body));
             t2 = foldl addType t1 (map (\<lambda>m. submatch m 1) (FindAllStringSubmatch mapFieldRe body))
         in foldl (\<lambda>types m.
                     foldl addType types
                       (map (\<lambda>v. submatch v 1) (FindAllStringSubmatch oneofVariantRe (submatch m 1))))
              t2 (FindAllStringSubmatch oneofRe body)))"

text \<open>The names that \<open>defined\<close> maps to true, in \<open>BuildRefCounts\<close> and \<open>BuildRefGraph\<close>.\<close>

definition definedNames :: "Block list \<Rightarrow> string list" where
  "definedNames blocks =
     map Name (filter (\<lambda>b. (Kind b = BlockMessage \<or> Kind b = BlockEnum) \<and> Name b \<noteq> []) blocks)"

text \<open>The \<open>refs\<close> of a block; the loops skip a block of any other kind.\<close>

definition blockRefs :: "Block \<Rightarrow> string list" where
  "blockRefs b =
     (if Kind b = BlockMessage \<or> Kind b = BlockExtend then ExtractFieldTypes b
      else if Kind b = BlockService then
        concat (map (\<lambda>rpc. [RequestType rpc, ResponseType rpc]) (ExtractRPCs b))
      else [])"

text \<open>
  A Go map from names to counts is a partial map; reading a missing key gives \<open>0\<close>.
  The map \<open>uses\<close> of sets of names is the list of the pairs \<open>(a, b)\<close> with
  \<open>uses[a][b]\<close> true, in the order they are set.
\<close>

definition getCount :: "(string \<rightharpoonup> int) \<Rightarrow> string \<Rightarrow> int" where
  "getCount m k = (case m k of None \<Rightarrow> 0 | Some c \<Rightarrow> c)"

record refState =
  seen :: "string list"
  counts :: "string \<rightharpoonup> int"
  uses :: "(string \<times> string) list"

definition refStep :: "string list \<Rightarrow> string \<Rightarrow> refState \<Rightarrow> string \<Rightarrow> refState" where
  "refStep defined name st ref =
     (if ref = name then st
      else if ref \<in> set defined \<and> ref \<notin> set (seen st) then
        st\<lparr>seen := seen st @ [ref],
           counts := (counts st)(ref \<mapsto> getCount (counts st) ref + 1),
           uses := (if name \<noteq> [] then uses st @ [(name, ref)] else uses st)\<rparr>
      else st)"

definition blockStep :: "string list \<Rightarrow> refState \<Rightarrow> Block \<Rightarrow> refState" where
  "blockStep defined st b = foldl (refStep defined (Name b)) (st\<lparr>seen := []\<rparr>) (blockRefs b)"

definition raise2 :: "(string \<rightharpoonup> int) \<Rightarrow> string \<Rightarrow> (string \<rightharpoonup> int)" where
  "raise2 m k = (if getCount m k < 2 then m(k \<mapsto> 2) else m)"

text \<open>The loop over \<open>uses\<close> that raises the counts of two types that reference each
  other.  Go visits the map in an unspecified order; the result does not depend on it.\<close>

definition boostCycles :: "(string \<times> string) list \<Rightarrow> (string \<rightharpoonup> int) \<Rightarrow> (string \<rightharpoonup> int)" where
  "boostCycles us m =
     foldl (\<lambda>m (a, b). if (b, a) \<in> set us then raise2 (raise2 m a) b else m) m us"

definition BuildRefCounts :: "Block list \<Rightarrow> (string \<rightharpoonup> int)" where
  "BuildRefCounts blocks =
     (let st = foldl (blockStep (definedNames blocks))
                 \<lparr>seen = [], counts = Map.empty, uses = []\<rparr> blocks
      in boostCycles (uses st) (counts st))"

text \<open>
  \<open>references defined b t\<close>: the declaration \<open>b\<close> contributes a reference to the
  type \<open>t\<close>, that is, \<open>t\<close> is among the names extracted from \<open>b\<close>, is not the name
  of \<open>b\<close> itself and is defined in the file.  \<open>usesPairs\<close> is the content of the map
  \<open>uses\<close> after the loop over the blocks.
\<close>

definition references :: "string list \<Rightarrow> Block \<Rightarrow> string \<Rightarrow> bool" where
  "references defined b t = (t \<in> set (blockRefs b) \<and> t \<noteq> Name b \<and> t \<in> set defined)"

definition usesPairs :: "Block list \<Rightarrow> (string \<times> string) set" where
  "usesPairs blocks =
     {(Name b, r) | b r. b \<in> set blocks \<and> Name b \<noteq> [] \<and> references (definedNames blocks) b r}"

text \<open>\<open>referencesByName blocks a b\<close>: a declaration named \<open>a\<close> references \<open>b\<close>;
  \<open>inCycle blocks t\<close>: \<open>t\<close> and some other name reference each other directly.\<close>

definition referencesByName :: "Block list \<Rightarrow> string \<Rightarrow> string \<Rightarrow> bool" where
  "referencesByName blocks a b =
     (\<exists>d \<in> set blocks. Name d = a \<and> a \<noteq> [] \<and> references (definedNames blocks) d b)"

definition inCycle :: "Block list \<Rightarrow> string \<Rightarrow> bool" where
  "inCycle blocks t =
     (\<exists>x \<in> set (concat (map blockRefs blocks)).
        referencesByName blocks t x \<and> referencesByName blocks x t)"

definition baseCount :: "Block list \<Rightarrow> string \<Rightarrow> int" where
  "baseCount blocks t =
     int (length (filter (\<lambda>b. references (definedNames blocks) b t) blocks))"

section \<open>Options and errors of the sorter\<close>

record Options =
  Write :: bool
  Check :: bool
  Diff :: bool
  Verify :: bool
  ProtocPath :: string
  ProtoPaths :: "string list"
  SharedOrder :: string
  SortRPCs :: string
  PreserveDividers :: bool
  StripCommented :: bool
  DryRun :: bool
  Verbose :: bool
  Quiet :: bool
  Recursive :: bool
  Annotate :: bool
  SectionHeaders :: bool
  ConfigFile :: string

text \<open>The two error types of the source, \<open>*Proto2Error\<close> and \<open>*ParseError\<close>, the
  second wrapping the error of the scanner.\<close>

datatype sort_error = Proto2Error | ParseError scan_error

section \<open>Comments: dividers, commented-out code, section headers\<close>

fun isProto2_loop :: "string list \<Rightarrow> bool" where
  "isProto2_loop [] = False"
| "isProto2_loop (line # rest) =
     (if HasPrefix (TrimSpace line) ''syntax'' then Contains (TrimSpace line) ''\"proto2\"''
      else isProto2_loop rest)"

definition isProto2 :: "string \<Rightarrow> bool" where
  "isProto2 content = isProto2_loop (SplitLines content)"

definition reSymbol :: "char \<Rightarrow> bool" where
  "reSymbol c = (c = CHR ''='' \<or> c = CHR ''-'' \<or> c = CHR ''*'' \<or> c = CHR ''#'')"

definition wordGroup :: rx where
  "wordGroup = Cap 1 (Cat (Many reWord 1) (Many reSpace 0))"

definition dividerBothSidesRe :: rx where
  "dividerBothSidesRe =
     Seqs [BeginText, Lit ''//'', Many reSpace 0, Many reSymbol 3, Many reSpace 0,
           Opt (Cat wordGroup (Opt (Cat wordGroup (Opt wordGroup)))),
           Many reSymbol 3, Many reSpace 0, EndText]"

definition dividerOneSideRe :: rx where
  "dividerOneSideRe =
     Seqs [BeginText, Lit ''//'', Many reSpace 0, Many reSymbol 3, Many reSpace 1,
           wordGroup, Opt (Cat wordGroup (Opt wordGroup)), EndText]"

definition isSectionDivider :: "string \<Rightarrow> bool" where
  "isSectionDivider comment =
     (MatchString dividerBothSidesRe (TrimSpace comment)
      \<or> MatchString dividerOneSideRe (TrimSpace comment))"

definition stripDividerComments :: "string \<Rightarrow> string" where
  "stripDividerComments comments =
     (if comments = [] then []
      else JoinLines (filter (\<lambda>line. \<not> isSectionDivider line) (SplitLines comments)))"

definition containsDivider :: "string \<Rightarrow> bool" where
  "containsDivider comments = (filter isSectionDivider (SplitLines comments) \<noteq> [])"

definition codeLineRe :: rx where
  "codeLineRe =
     Seqs [BeginText, Many reSpace 0, Lit ''//'', Many reSpace 0,
           Cap 1 (Alts
             [Seqs [Cap 2 (Alts [Lit ''message'', Lit ''enum'', Lit ''service'', Lit ''extend'']),
                    Many reSpace 1, Many reWord 1],
              Seqs [Lit ''rpc'', Many reSpace 1, Many reWord 1, Many reSpace 0, Lit ''(''],
              Seqs [Cap 3 (Alts [Lit ''import'', Lit ''option'', Lit ''package'', Lit ''syntax'']),
                    Many reSpace 1],
              Seqs [Cap 4 (Alts [Lit ''repeated'', Lit ''optional'']), Many reSpace 1,
                    Many reWord 1, Many reSpace 1, Many reWord 1, Many reSpace 0, Lit ''=''],
              Seqs [Many reWord 1, Many reSpace 1, Many reWord 1, Many reSpace 0, Lit ''='',
                    Many reSpace 0, Many reDigit 1],
              Alts [Lit ''{'', Lit ''}'', Lit ''('', Lit '')'', Lit '';''],
              Seqs [Lit ''returns'', Many reSpace 0, Lit ''('']])]"

definition isCommentLine :: "string \<Rightarrow> bool" where
  "isCommentLine line = HasPrefix (TrimSpace line) ''//''"

definition isCommentedOutCode :: "string list \<Rightarrow> bool" where
  "isCommentedOutCode lines =
     (if length lines = 0 then False
      else filter (\<lambda>line. TrimSpace line \<noteq> ''//'' \<and> \<not> MatchString codeLineRe line) lines = [])"

function stripCommentedCode_loop :: "string list \<Rightarrow> string list" where
  "stripCommentedCode_loop [] = []"
| "stripCommentedCode_loop (l # ls) =
     (if \<not> isCommentLine l then l # stripCommentedCode_loop ls
      else (if isCommentedOutCode (l # takeWhile isCommentLine ls) then []
            else l # takeWhile isCommentLine ls)
           @ stripCommentedCode_loop (dropWhile isCommentLine ls))"
  by pat_completeness auto
termination
  by (relation "measure length") (auto simp: less_Suc_eq_le length_dropWhile_le)

declare stripCommentedCode_loop.simps [simp del]

definition stripCommentedCode :: "string \<Rightarrow> string" where
  "stripCommentedCode comments = JoinLines (stripCommentedCode_loop (SplitLines comments))"

definition processComments :: "Options \<Rightarrow> Block \<Rightarrow> Block" where
  "processComments opts b =
     (if Comments b = [] then b
      else if StripCommented opts then b\<lparr>Comments := stripCommentedCode (Comments b)\<rparr>
      else b)"

definition sectionHeaderBanner :: string where
  "sectionHeaderBanner =
     ''// ============================================================================''"

definition sectionHeaderComment :: "string \<Rightarrow> string" where
  "sectionHeaderComment label =
     sectionHeaderBanner @ [CHR 0x0A] @ ''// '' @ label @ [CHR 0x0A] @ sectionHeaderBanner
     @ [CHR 0x0A]"

definition headerDescription :: rx where
  "headerDescription =
     Opt (Cat (Lit '' '')
            (Alt (Seqs [Lit ''('', Many (\<lambda>c. c \<noteq> CHR '')'') 1, Lit '')''])
                 (Cat (Lit ''--'') (Many (\<lambda>c. c \<noteq> CHR 0x0A) 1))))"

definition sectionHeaderRe :: rx where
  "sectionHeaderRe =
     Seqs [BeginLine, Lit sectionHeaderBanner, Lit [CHR 0x0A], Lit ''// '',
           Alts [Lit ''Services'', Cat (Lit ''Types for '') (Many reWord 1),
                 Lit ''Shared Types'', Lit ''Core Types'', Lit ''Unreferenced Types'',
                 Cat (Lit ''Composite Types'') headerDescription,
                 Cat (Lit ''Helper Types'') headerDescription,
                 Cat (Lit ''Standalone Types'') headerDescription,
                 Lit ''Types unused by RPCs''],
           Lit [CHR 0x0A], Lit sectionHeaderBanner, Lit [CHR 0x0A]]"

definition stripSectionHeaders :: "string \<Rightarrow> string" where
  "stripSectionHeaders comments =
     (if comments = [] then [] else RemoveAll sectionHeaderRe None comments)"

definition annotationRe :: rx where
  "annotationRe =
     Seqs [BeginLine, Lit ''//'', Many reSpace 0, Lit ''('',
           Cap 1 (Alts [Lit ''core: referenced by '', Lit ''helper: used only by '',
                        Lit ''request/response'', Lit ''unreferenced'']),
           Opt (Lit '')''), Many (\<lambda>c. c \<noteq> CHR 0x0A) 0, EndLine]"

definition stripAnnotations :: "string \<Rightarrow> string" where
  "stripAnnotations comments =
     (if comments = [] then []
      else JoinLines (filter (\<lambda>line. \<not> MatchString annotationRe (TrimSpace line))
                        (SplitLines comments)))"

text \<open>The loop of \<open>attachDividerComments\<close>, with the blocks kept so far and the
  pending divider text.\<close>

definition attachStep :: "Block list \<times> string \<Rightarrow> Block \<Rightarrow> Block list \<times> string" where
  "attachStep st b =
     (case st of (result, pending) \<Rightarrow>
        if Kind b = BlockComment \<and> containsDivider (Comments b) then
          (result, (if pending \<noteq> [] then pending @ [CHR 0x0A] else []) @ TrimSpace (Comments b))
        else if pending \<noteq> [] then
          (result @ [b\<lparr>Comments := (if Comments b \<noteq> [] then pending @ [CHR 0x0A] @ Comments b
                                      else pending @ [CHR 0x0A])\<rparr>], [])
        else (result @ [b], pending))"

definition attachDividerComments :: "Block list \<Rightarrow> Block list" where
  "attachDividerComments blocks =
     (case foldl attachStep ([], []) blocks of (result, pending) \<Rightarrow>
        if pending \<noteq> [] then result @ [newBlock BlockComment [] pending []] else result)"

section \<open>Writing the result\<close>

definition isBlankLine :: "string \<Rightarrow> bool" where
  "isBlankLine line = (TrimSpace line = [])"

definition cleanComments :: "string \<Rightarrow> string" where
  "cleanComments s =
     (if s = [] then []
      else JoinLines (rev (dropWhile isBlankLine (rev (dropWhile isBlankLine (SplitLines s))))))"

text \<open>\<open>withNewline s\<close> is what \<open>WriteString(s)\<close> followed by the conditional
  \<open>WriteByte('\n')\<close> appends.\<close>

definition withNewline :: "string \<Rightarrow> string" where
  "withNewline s = (if HasSuffix s [CHR 0x0A] then s else s @ [CHR 0x0A])"

definition writeBlockWithComments :: "Block \<Rightarrow> string" where
  "writeBlockWithComments b =
     (if cleanComments (Comments b) \<noteq> [] then withNewline (cleanComments (Comments b)) else [])
     @ withNewline (DeclText b)"

definition Emit ::
  "string \<Rightarrow> Block option \<Rightarrow> Block option \<Rightarrow> Block list \<Rightarrow> Block list \<Rightarrow> Block list
    \<Rightarrow> Block list \<Rightarrow> string" where
  "Emit headerComments syntax pkg options imports extends body =
     TrimRight
       ((if cleanComments headerComments \<noteq> [] then withNewline (cleanComments headerComments)
         else [])
        @ (case syntax of None \<Rightarrow> [] | Some s \<Rightarrow> withNewline (DeclText s))
        @ (case pkg of None \<Rightarrow> [] | Some p \<Rightarrow> [CHR 0x0A] @ writeBlockWithComments p)
        @ concat (map (\<lambda>opt. [CHR 0x0A] @ writeBlockWithComments opt) options)
        @ concat (map (\<lambda>ext. [CHR 0x0A] @ writeBlockWithComments ext) extends)
        @ (if length imports > 0 then
             [CHR 0x0A] @ writeBlockWithComments (hd imports)
             @ concat (map (\<lambda>imp. [CHR 0x0A] @ writeBlockWithComments imp) (tl imports))
           else [])
        @ concat (map (\<lambda>b. [CHR 0x0A] @ writeBlockWithComments b) body))
       [CHR 0x0A]
     @ [CHR 0x0A]"

section \<open>Classification and order\<close>

text \<open>
  The blocks of the body are shared by pointer between the lists of \<open>Sort\<close>, which
  sets their section, consumer and comments in place.  The model keeps them in a store,
  the list of the body blocks in the order of the file, and the lists of \<open>Sort\<close> are
  lists of indices into the store.
\<close>

type_synonym ptr = nat

definition nameLess :: "Block \<Rightarrow> Block \<Rightarrow> bool" where
  "nameLess a b = strLess (Name a) (Name b)"

definition ptrNameLess :: "Block list \<Rightarrow> ptr \<Rightarrow> ptr \<Rightarrow> bool" where
  "ptrNameLess store i j = strLess (Name (store ! i)) (Name (store ! j))"

definition sortStrings :: "string list \<Rightarrow> string list" where
  "sortStrings xs = SliceStable strLess xs"

definition graphStep ::
  "string list \<Rightarrow> string \<Rightarrow> string list \<times> (string \<Rightarrow> string list) \<Rightarrow> string
    \<Rightarrow> string list \<times> (string \<Rightarrow> string list)" where
  "graphStep defined name st ref =
     (case st of (visited, graph) \<Rightarrow>
        if ref = name then (visited, graph)
        else if ref \<in> set defined \<and> ref \<notin> set visited then
          (visited @ [ref], graph(ref := graph ref @ [name]))
        else (visited, graph))"

text \<open>The map of \<open>BuildRefGraph\<close>, a missing key being the empty list.\<close>

definition BuildRefGraph :: "Block list \<Rightarrow> (string \<Rightarrow> string list)" where
  "BuildRefGraph blocks =
     foldl (\<lambda>graph b.
              if Name b = [] then graph
              else snd (foldl (graphStep (definedNames blocks) (Name b)) ([], graph) (blockRefs b)))
       (\<lambda>name. []) blocks"

text \<open>\<open>blockMap\<close> of \<open>classifyServiceAndRPC\<close>: the last block of each non-empty name.\<close>

definition blockMapOf :: "Block list \<Rightarrow> ptr list \<Rightarrow> string \<Rightarrow> ptr option" where
  "blockMapOf store idxs name =
     (if name = [] then None
      else (case filter (\<lambda>i. Name (store ! i) = name) idxs of
              [] \<Rightarrow> None
            | i # rest \<Rightarrow> Some (last (i # rest))))"

definition rpcTypeNames :: "Block list \<Rightarrow> ptr list \<Rightarrow> string list" where
  "rpcTypeNames store svcs =
     concat (map (\<lambda>i. concat (map (\<lambda>rpc. [RequestType rpc, ResponseType rpc]) (RPCs (store ! i))))
               svcs)"

definition rpcMsgStep ::
  "Block list \<Rightarrow> ptr list \<Rightarrow> string list \<times> ptr list \<Rightarrow> string \<Rightarrow> string list \<times> ptr list" where
  "rpcMsgStep store idxs st typeName =
     (case st of (emitted, msgs) \<Rightarrow>
        (case blockMapOf store idxs typeName of
           Some i \<Rightarrow>
             if typeName \<notin> set emitted then (emitted @ [typeName], msgs @ [i])
             else (emitted, msgs)
         | None \<Rightarrow> (emitted, msgs)))"

definition classifyServiceAndRPC ::
  "Block list \<Rightarrow> ptr list \<Rightarrow> ptr list \<times> ptr list \<times> ptr list" where
  "classifyServiceAndRPC store idxs =
     (let svcBlocks = filter (\<lambda>i. Kind (store ! i) = BlockService) idxs in
      if length svcBlocks = 0 then ([], [], idxs)
      else
        (case foldl (rpcMsgStep store idxs) ([], []) (rpcTypeNames store svcBlocks) of
           (rpcMsgNames, rpcMsgs) \<Rightarrow>
             (svcBlocks, rpcMsgs,
              filter (\<lambda>i. Kind (store ! i) \<noteq> BlockService
                           \<and> Name (store ! i) \<notin> set rpcMsgNames) idxs)))"

text \<open>The map \<open>outgoingRefs\<close> of \<open>Sort\<close>, a missing key being the empty list.\<close>

definition localRefs :: "string list \<Rightarrow> Block \<Rightarrow> string list" where
  "localRefs defined b =
     filter (\<lambda>ref. ref \<in> set defined \<and> ref \<noteq> Name b)
       (if Kind b = BlockMessage \<or> Kind b = BlockExtend then ExtractFieldTypes b else [])"

definition outgoingRefsOf :: "Block list \<Rightarrow> (string \<Rightarrow> string list)" where
  "outgoingRefsOf body =
     (let defined = map Name (filter (\<lambda>b. Kind b = BlockMessage \<or> Kind b = BlockEnum) body) in
      foldl (\<lambda>m b. if length (localRefs defined b) > 0 then m(Name b := localRefs defined b) else m)
        (\<lambda>name. []) body)"

record classes =
  cl_store :: "Block list"
  coreBlocks :: "ptr list"
  helperBlocks :: "ptr list"
  unrefBlocks :: "ptr list"

definition classifyStep ::
  "string list \<Rightarrow> string list \<Rightarrow> (string \<Rightarrow> string list) \<Rightarrow> (string \<rightharpoonup> int)
    \<Rightarrow> (string \<Rightarrow> string list) \<Rightarrow> classes \<Rightarrow> ptr \<Rightarrow> classes" where
  "classifyStep svcNames rpcMsgNames outgoingRefs refCounts refGraph st i =
     (let b = cl_store st ! i in
      if Name b \<in> set svcNames \<or> Name b \<in> set rpcMsgNames then st
      else if length (outgoingRefs (Name b)) > 0 then
        st\<lparr>cl_store := (cl_store st)[i := b\<lparr>Section := SectionCore\<rparr>],
           coreBlocks := coreBlocks st @ [i]\<rparr>
      else if getCount refCounts (Name b) > 0 then
        st\<lparr>cl_store := (cl_store st)
              [i := b\<lparr>Section := SectionHelper,
                       Consumer := (if length (refGraph (Name b)) > 0 then hd (refGraph (Name b))
                                    else Consumer b)\<rparr>],
           helperBlocks := helperBlocks st @ [i]\<rparr>
      else
        st\<lparr>cl_store := (cl_store st)[i := b\<lparr>Section := SectionUnreferenced\<rparr>],
           unrefBlocks := unrefBlocks st @ [i]\<rparr>)"

subsection \<open>Dependency order of the core blocks\<close>

record topo =
  inDegree :: "string \<Rightarrow> int"
  dependents :: "string \<Rightarrow> string list"

definition topoRefStep ::
  "string list \<Rightarrow> string \<Rightarrow> string list \<times> topo \<Rightarrow> string \<Rightarrow> string list \<times> topo" where
  "topoRefStep coreSet name st ref =
     (case st of (visited, t) \<Rightarrow>
        if ref = name then (visited, t)
        else if ref \<in> set coreSet \<and> ref \<notin> set visited then
          (visited @ [ref],
           t\<lparr>inDegree := (inDegree t)(name := inDegree t name + 1),
             dependents := (dependents t)(ref := dependents t ref @ [name])\<rparr>)
        else (visited, t))"

definition topoEdges :: "string list \<Rightarrow> Block list \<Rightarrow> topo" where
  "topoEdges coreSet allBlocks =
     foldl (\<lambda>t b. if Name b \<notin> set coreSet then t
                   else snd (foldl (topoRefStep coreSet (Name b)) ([], t) (blockRefs b)))
       \<lparr>inDegree = (\<lambda>name. 0), dependents = (\<lambda>name. [])\<rparr> allBlocks"

definition releaseStep :: "(string \<Rightarrow> int) \<times> string list \<Rightarrow> string \<Rightarrow> (string \<Rightarrow> int) \<times> string list" where
  "releaseStep st dep =
     (case st of (deg, queue) \<Rightarrow>
        if deg dep - 1 = 0 then (deg(dep := deg dep - 1), sortStrings (queue @ [dep]))
        else (deg(dep := deg dep - 1), queue))"

text \<open>
  The loop of Kahn's algorithm.  Every name enters the queue at most once after the
  start, when its degree reaches zero, so the loop runs at most twice the number of core
  blocks; the first argument bounds the number of iterations by that, and \<open>None\<close>
  stands for a run that does not end or that meets a name with no block.
\<close>

fun kahn ::
  "nat \<Rightarrow> (string \<Rightarrow> ptr option) \<Rightarrow> (string \<Rightarrow> string list) \<Rightarrow> (string \<Rightarrow> int) \<Rightarrow> string list
    \<Rightarrow> ptr list \<Rightarrow> ptr list option" where
  "kahn fuel coreMap deps deg [] result = Some result"
| "kahn 0 coreMap deps deg (name # queue) result = None"
| "kahn (Suc fuel) coreMap deps deg (name # queue) result =
     (case coreMap name of
        None \<Rightarrow> None
      | Some b \<Rightarrow>
          (case foldl releaseStep (deg, queue) (deps name) of
             (deg', queue') \<Rightarrow> kahn fuel coreMap deps deg' queue' (result @ [b])))"

definition topoSortBlocks :: "Block list \<Rightarrow> ptr list \<Rightarrow> ptr list \<Rightarrow> ptr list option" where
  "topoSortBlocks store core allBlocks =
     (if length core \<le> 1 then Some core
      else
        (let coreSet = map (\<lambda>i. Name (store ! i)) core;
             coreMap = (\<lambda>name. case filter (\<lambda>i. Name (store ! i) = name) core of
                                 [] \<Rightarrow> None | i # rest \<Rightarrow> Some (last (i # rest)));
             t = topoEdges coreSet (map (\<lambda>i. store ! i) allBlocks);
             queue = sortStrings (filter (\<lambda>name. inDegree t name = 0) coreSet)
         in (case kahn (2 * length core + 1) coreMap (dependents t) (inDegree t) queue [] of
               None \<Rightarrow> None
             | Some result \<Rightarrow>
                 if length result < length core then
                   Some (result
                         @ SliceStable (ptrNameLess store)
                             (filter (\<lambda>i. Name (store ! i) \<notin> set (map (\<lambda>j. Name (store ! j)) result))
                                core))
                 else Some result)))"

subsection \<open>The final order\<close>

text \<open>
  \<open>emitWithHelpers\<close> marks a name as emitted only after it has emitted the helpers of
  the block, so a cycle among consumers would recurse for ever.  The first argument
  bounds the depth of the recursion; a chain of unemitted helpers longer than the number
  of helper blocks repeats a name, so with that bound \<open>None\<close> stands for the recursion
  that does not end.  The state is the set of emitted names and the list \<open>ordered\<close>.
\<close>

fun emitWithHelpers ::
  "nat \<Rightarrow> Block list \<Rightarrow> (string \<Rightarrow> ptr list) \<Rightarrow> string list \<times> ptr list \<Rightarrow> ptr
    \<Rightarrow> (string list \<times> ptr list) option"
  and emitHelpers ::
  "nat \<Rightarrow> Block list \<Rightarrow> (string \<Rightarrow> ptr list) \<Rightarrow> string list \<times> ptr list \<Rightarrow> ptr list
    \<Rightarrow> (string list \<times> ptr list) option" where
  "emitWithHelpers 0 store helperMap st b = None"
| "emitWithHelpers (Suc depth) store helperMap st b =
     (if Name (store ! b) \<in> set (fst st) then Some st
      else
        (case emitHelpers depth store helperMap st (helperMap (Name (store ! b))) of
           None \<Rightarrow> None
         | Some (emitted, ordered) \<Rightarrow> Some (emitted @ [Name (store ! b)], ordered @ [b])))"
| "emitHelpers depth store helperMap st [] = Some st"
| "emitHelpers depth store helperMap st (h # hs) =
     (case emitWithHelpers depth store helperMap st h of
        None \<Rightarrow> None
      | Some st' \<Rightarrow> emitHelpers depth store helperMap st' hs)"

text \<open>The loops that append a block unless its name is emitted.\<close>

definition emitPlain :: "Block list \<Rightarrow> string list \<times> ptr list \<Rightarrow> ptr \<Rightarrow> string list \<times> ptr list" where
  "emitPlain store st b =
     (case st of (emitted, ordered) \<Rightarrow>
        if Name (store ! b) \<notin> set emitted then (emitted @ [Name (store ! b)], ordered @ [b])
        else (emitted, ordered))"

text \<open>The loop over \<open>rpcMessages\<close>: the section is set, then the block is emitted with
  its helpers.\<close>

fun emitRPCMessages ::
  "nat \<Rightarrow> (string \<Rightarrow> ptr list) \<Rightarrow> Block list \<times> string list \<times> ptr list \<Rightarrow> ptr list
    \<Rightarrow> (Block list \<times> string list \<times> ptr list) option" where
  "emitRPCMessages depth helperMap st [] = Some st"
| "emitRPCMessages depth helperMap (store, st) (msg # msgs) =
     (case emitWithHelpers depth (store[msg := (store ! msg)\<lparr>Section := SectionRequestResponse\<rparr>])
             helperMap st msg of
        None \<Rightarrow> None
      | Some st' \<Rightarrow>
          emitRPCMessages depth helperMap
            (store[msg := (store ! msg)\<lparr>Section := SectionRequestResponse\<rparr>], st') msgs)"

subsection \<open>Annotations and section headers\<close>

fun joinComma :: "string list \<Rightarrow> string" where
  "joinComma [] = []"
| "joinComma [s] = s"
| "joinComma (s # rest) = s @ '', '' @ joinComma rest"

text \<open>The annotation of a block, \<open>None\<close> where the loop of \<open>annotateBlocks\<close> moves on
  to the next block.\<close>

definition annotationOf :: "(string \<Rightarrow> string list) \<Rightarrow> Block \<Rightarrow> string option" where
  "annotationOf refGraph b =
     (if Kind b \<noteq> BlockMessage \<and> Kind b \<noteq> BlockEnum then None
      else
        (case Section b of
           SectionRequestResponse \<Rightarrow> Some ''// (request/response)''
         | SectionCore \<Rightarrow>
             Some (''// (core: referenced by '' @ joinComma (sortStrings (refGraph (Name b))) @ '')'')
         | SectionHelper \<Rightarrow> Some (''// (helper: used only by '' @ Consumer b @ '')'')
         | SectionUnreferenced \<Rightarrow> Some ''// (unreferenced)''
         | _ \<Rightarrow> None))"

definition annotateBlock :: "(string \<Rightarrow> string list) \<Rightarrow> Block \<Rightarrow> Block" where
  "annotateBlock refGraph b =
     (case annotationOf refGraph b of
        None \<Rightarrow> b
      | Some annotation \<Rightarrow>
          (let comments = TrimRight (stripAnnotations (Comments b)) [CHR 0x0A, CHR '' '', CHR 0x09]
           in if comments \<noteq> [] then
                b\<lparr>Comments := comments @ [CHR 0x0A] @ annotation @ [CHR 0x0A]\<rparr>
              else b\<lparr>Comments := annotation @ [CHR 0x0A]\<rparr>))"

definition annotateBlocks :: "Block list \<Rightarrow> ptr list \<Rightarrow> (string \<Rightarrow> string list) \<Rightarrow> Block list" where
  "annotateBlocks store ordered refGraph =
     foldl (\<lambda>st i. st[i := annotateBlock refGraph (st ! i)]) store ordered"

text \<open>\<open>buildMessageToRPCMap\<close>: the first RPC that names a type wins, which is the first
  pair of the list.\<close>

definition buildMessageToRPCMap :: "Block list \<Rightarrow> (string \<times> string) list" where
  "buildMessageToRPCMap serviceBlocks =
     concat (map (\<lambda>svc. concat (map (\<lambda>rpc. [(RequestType rpc, rpcName rpc),
                                             (ResponseType rpc, rpcName rpc)]) (RPCs svc)))
               serviceBlocks)"

text \<open>\<open>findUltimateConsumer\<close> follows the consumers of helpers.  The first argument
  bounds the number of steps by the number of blocks; a longer chain repeats a name and
  does not end, which is \<open>None\<close>.\<close>

fun findUltimateConsumer :: "nat \<Rightarrow> (string \<Rightarrow> Block option) \<Rightarrow> string \<Rightarrow> string option" where
  "findUltimateConsumer 0 blockMap name = None"
| "findUltimateConsumer (Suc fuel) blockMap name =
     (case blockMap name of
        Some b \<Rightarrow>
          if Section b = SectionHelper then findUltimateConsumer fuel blockMap (Consumer b)
          else Some name
      | None \<Rightarrow> Some name)"

record headerState =
  hs_store :: "Block list"
  emittedSections :: "Section list"
  emittedRPCs :: "string list"

text \<open>The section under which a block is listed: that of the block, changed for a
  helper as in the source; \<open>None\<close> when the search for the ultimate consumer does not
  end.\<close>

definition headerSection ::
  "bool \<Rightarrow> (string \<times> string) list \<Rightarrow> (string \<Rightarrow> Block option) \<Rightarrow> nat \<Rightarrow> Block \<Rightarrow> Section option" where
  "headerSection hasServices msgToRPC blockMap fuel b =
     (if Section b = SectionHelper then
        (if hasServices then
           (if Consumer b \<noteq> [] \<and> map_of msgToRPC (Consumer b) \<noteq> None
            then Some SectionRequestResponse else Some SectionHelper)
         else
           (case findUltimateConsumer fuel blockMap (Name b) of
              None \<Rightarrow> None
            | Some ultimateConsumer \<Rightarrow>
                (case blockMap ultimateConsumer of
                   Some ultimateBlock \<Rightarrow>
                     if Section ultimateBlock = SectionUnreferenced then Some SectionUnreferenced
                     else Some SectionHelper
                 | None \<Rightarrow> Some SectionHelper)))
      else Some (Section b))"

definition lookupRPC :: "(string \<times> string) list \<Rightarrow> string \<Rightarrow> string" where
  "lookupRPC msgToRPC name = (case map_of msgToRPC name of None \<Rightarrow> [] | Some r \<Rightarrow> r)"

text \<open>The header chosen for a block of the given section, with the names of the RPCs
  that have a header after it.\<close>

definition headerFor ::
  "bool \<Rightarrow> (string \<times> string) list \<Rightarrow> headerState \<Rightarrow> Block \<Rightarrow> Section \<Rightarrow> string \<times> string list" where
  "headerFor hasServices msgToRPC st b section =
     (case section of
        SectionService \<Rightarrow> ([], emittedRPCs st)
      | SectionRequestResponse \<Rightarrow>
          (let rpcName0 = lookupRPC msgToRPC (Name b);
               rpcName1 = (if rpcName0 = [] then lookupRPC msgToRPC (Consumer b) else rpcName0)
           in if rpcName1 \<noteq> [] \<and> rpcName1 \<notin> set (emittedRPCs st) then
                (sectionHeaderComment (''Types for '' @ rpcName1), emittedRPCs st @ [rpcName1])
              else ([], emittedRPCs st))
      | SectionCore \<Rightarrow>
          (if SectionCore \<notin> set (emittedSections st) then
             (sectionHeaderComment ''Composite Types -- using other types'', emittedRPCs st)
           else ([], emittedRPCs st))
      | SectionHelper \<Rightarrow>
          (if SectionHelper \<notin> set (emittedSections st) then
             (sectionHeaderComment ''Helper Types -- used in other types'', emittedRPCs st)
           else ([], emittedRPCs st))
      | SectionUnreferenced \<Rightarrow>
          (if SectionUnreferenced \<notin> set (emittedSections st) then
             (if hasServices then (sectionHeaderComment ''Types unused by RPCs'', emittedRPCs st)
              else (sectionHeaderComment
                      ''Standalone Types -- not referenced elsewhere in this file'',
                    emittedRPCs st))
           else ([], emittedRPCs st))
      | SectionHeader \<Rightarrow> ([], emittedRPCs st))"

definition headerStep ::
  "bool \<Rightarrow> (string \<times> string) list \<Rightarrow> (string \<Rightarrow> Block option) \<Rightarrow> nat
    \<Rightarrow> headerState option \<Rightarrow> ptr \<Rightarrow> headerState option" where
  "headerStep hasServices msgToRPC blockMap fuel sto i =
     (case sto of
        None \<Rightarrow> None
      | Some st \<Rightarrow>
          (case headerSection hasServices msgToRPC blockMap fuel (hs_store st ! i) of
             None \<Rightarrow> None
           | Some section \<Rightarrow>
               (case headerFor hasServices msgToRPC st (hs_store st ! i) section of
                  (header, rpcs) \<Rightarrow>
                    Some \<lparr>hs_store =
                            (if header \<noteq> [] then
                               (hs_store st)
                                 [i := (hs_store st ! i)
                                    \<lparr>Comments := header
                                        @ dropWhile (\<lambda>c. c = CHR 0x0A) (Comments (hs_store st ! i))\<rparr>]
                             else hs_store st),
                          emittedSections = emittedSections st @ [section],
                          emittedRPCs = rpcs\<rparr>)))"

definition injectSectionHeaders :: "Block list \<Rightarrow> ptr list \<Rightarrow> ptr list \<Rightarrow> Block list option" where
  "injectSectionHeaders store ordered serviceBlocks =
     (if length ordered = 0 then Some store
      else
        (let hasServices = (length serviceBlocks > 0);
             msgToRPC = (if hasServices then buildMessageToRPCMap (map (\<lambda>i. store ! i) serviceBlocks)
                         else []);
             blockMap = (\<lambda>name. case filter (\<lambda>i. Name (store ! i) = name) ordered of
                                  [] \<Rightarrow> None | i # rest \<Rightarrow> Some (store ! last (i # rest)))
         in map_option hs_store
              (foldl (headerStep hasServices msgToRPC blockMap (length ordered + 1))
                 (Some \<lparr>hs_store = store, emittedSections = [], emittedRPCs = []\<rparr>) ordered)))"

section \<open>The sorter\<close>

definition processBlock :: "Options \<Rightarrow> Block \<Rightarrow> Block" where
  "processBlock opts b =
     (let b1 = processComments opts (b\<lparr>Comments := stripSectionHeaders (Comments b)\<rparr>) in
      if \<not> PreserveDividers opts then b1\<lparr>Comments := stripDividerComments (Comments b1)\<rparr>
      else b1)"

text \<open>The first loops of \<open>Sort\<close>, which change every block on its own: dividers,
  comments, the order of RPCs, the RPC list of a service.\<close>

definition prepareBlocks :: "Options \<Rightarrow> Block list \<Rightarrow> Block list" where
  "prepareBlocks opts blocks =
     map (\<lambda>b. if Kind b = BlockService then b\<lparr>RPCs := ExtractRPCs b\<rparr> else b)
       (map (\<lambda>b. if SortRPCs opts \<noteq> [] \<and> Kind b = BlockService
                  then b\<lparr>DeclText := SortRPCsInService (DeclText b) (SortRPCs opts)\<rparr> else b)
          (map (processBlock opts)
             (if PreserveDividers opts then attachDividerComments blocks else blocks)))"

definition lastOfKind :: "BlockKind \<Rightarrow> Block list \<Rightarrow> Block option" where
  "lastOfKind k blocks =
     (case filter (\<lambda>b. Kind b = k) blocks of [] \<Rightarrow> None | b # rest \<Rightarrow> Some (last (b # rest)))"

definition isBodyKind :: "Block \<Rightarrow> bool" where
  "isBodyKind b = (Kind b = BlockMessage \<or> Kind b = BlockEnum \<or> Kind b = BlockService)"

text \<open>The classification of the remaining blocks and the final order of the body:
  the store and the list \<open>ordered\<close>, \<open>None\<close> when a recursion or a loop does not end.\<close>

definition orderBody :: "Options \<Rightarrow> Block list \<Rightarrow> (Block list \<times> ptr list \<times> ptr list) option" where
  "orderBody opts body =
     (let bodyBlocks = [0..<length body];
          refCounts = BuildRefCounts body;
          refGraph = BuildRefGraph body
      in case classifyServiceAndRPC body bodyBlocks of
           (serviceBlocks, rpcMessages, remainingBlocks) \<Rightarrow>
             (let cl = foldl (classifyStep (map (\<lambda>i. Name (body ! i)) serviceBlocks)
                                (map (\<lambda>i. Name (body ! i)) rpcMessages)
                                (outgoingRefsOf body) refCounts refGraph)
                         \<lparr>cl_store = body, coreBlocks = [], helperBlocks = [], unrefBlocks = []\<rparr>
                         remainingBlocks;
                  store = cl_store cl;
                  helperMap = (\<lambda>consumer. SliceStable (ptrNameLess store)
                                 (filter (\<lambda>h. Consumer (store ! h) = consumer) (helperBlocks cl)));
                  store1 = foldl (\<lambda>st i. st[i := (st ! i)\<lparr>Section := SectionService\<rparr>]) store
                             serviceBlocks
              in case (if SharedOrder opts = ''dependency''
                       then topoSortBlocks store (coreBlocks cl) bodyBlocks
                       else Some (SliceStable (ptrNameLess store) (coreBlocks cl))) of
                   None \<Rightarrow> None
                 | Some coreSorted \<Rightarrow>
                     (case emitRPCMessages (length (helperBlocks cl) + 2) helperMap
                             (store1, map (\<lambda>i. Name (store1 ! i)) serviceBlocks, serviceBlocks)
                             rpcMessages of
                        None \<Rightarrow> None
                      | Some (store2, st2) \<Rightarrow>
                          Some (store2,
                                snd (foldl (emitPlain store2)
                                       (foldl (emitPlain store2)
                                          (foldl (emitPlain store2) st2
                                             (SliceStable (ptrNameLess store) (unrefBlocks cl)))
                                          coreSorted)
                                       (helperBlocks cl)),
                                serviceBlocks))))"

text \<open>A warning of \<open>Sort\<close> is the text \<open>warning: KIND "NAME" is unreferenced in
  this file\<close>; the model keeps the kind and the name of the block.\<close>

datatype warning = Unreferenced BlockKind string

text \<open>\<open>Sort\<close> after the scan, for a non-empty list of blocks.  No warning is ever
  appended to \<open>warnings\<close>.\<close>

definition sortBlocks :: "Options \<Rightarrow> Block list \<Rightarrow> (sort_error, string \<times> warning list) result" where
  "sortBlocks opts scanned =
     (let blocks = prepareBlocks opts scanned;
          syntaxBlock = lastOfKind BlockSyntax blocks;
          headerComments = (case syntaxBlock of None \<Rightarrow> [] | Some b \<Rightarrow> Comments b);
          packageBlock = lastOfKind BlockPackage blocks;
          optionBlocks = SliceStable nameLess (filter (\<lambda>b. Kind b = BlockOption) blocks);
          importBlocks = SliceStable nameLess (filter (\<lambda>b. Kind b = BlockImport) blocks);
          extendBlocks = filter (\<lambda>b. Kind b = BlockExtend) blocks
      in case orderBody opts (filter isBodyKind blocks) of
           None \<Rightarrow> Panic
         | Some (store, ordered, serviceBlocks) \<Rightarrow>
             (case (if SectionHeaders opts then
                      injectSectionHeaders
                        (if Annotate opts then annotateBlocks store ordered
                                                (BuildRefGraph (filter isBodyKind blocks))
                         else store)
                        ordered serviceBlocks
                    else Some (if Annotate opts then annotateBlocks store ordered
                                                      (BuildRefGraph (filter isBodyKind blocks))
                               else store)) of
                None \<Rightarrow> Panic
              | Some final \<Rightarrow>
                  Ok (Emit headerComments syntaxBlock packageBlock optionBlocks importBlocks
                        extendBlocks (map (\<lambda>i. final ! i) ordered), [])))"

definition Sort :: "string \<Rightarrow> Options \<Rightarrow> (sort_error, string \<times> warning list) result" where
  "Sort content opts =
     (if isProto2 content then Err Proto2Error
      else
        (case ScanFile content of
           Panic \<Rightarrow> Panic
         | Err e \<Rightarrow> Err (ParseError e)
         | Ok blocks \<Rightarrow>
             if length blocks = 0 then Ok (content, []) else sortBlocks opts blocks))"

definition defaultOptions :: Options where
  "defaultOptions =
     \<lparr>Write = False, Check = False, Diff = False, Verify = False, ProtocPath = [],
      ProtoPaths = [], SharedOrder = ''alpha'', SortRPCs = [], PreserveDividers = False,
      StripCommented = False, DryRun = False, Verbose = False, Quiet = False,
      Recursive = False, Annotate = False, SectionHeaders = False, ConfigFile = []\<rparr>"

section \<open>The content integrity check\<close>

text \<open>
  A Go map from keys to texts is a list of pairs with distinct keys, in the order in which
  the keys were first set.  Go visits a map in an unspecified order, so which of several
  differences \<open>verifyContentIntegrity\<close> reports is not fixed; the model reports the
  first in the order of the list, and whether an error is returned does not depend on it.
\<close>

fun mapPut :: "string \<Rightarrow> string \<Rightarrow> (string \<times> string) list \<Rightarrow> (string \<times> string) list" where
  "mapPut k v [] = [(k, v)]"
| "mapPut k v ((k', v') # rest) =
     (if k' = k then (k, v) # rest else (k', v') # mapPut k v rest)"

definition declStep :: "(string \<times> string) list \<Rightarrow> Block \<Rightarrow> (string \<times> string) list" where
  "declStep decls b =
     (if Kind b = BlockMessage \<or> Kind b = BlockEnum \<or> Kind b = BlockService
         \<or> Kind b = BlockExtend then
        mapPut (BlockKind_String (Kind b) @ '':'' @ Name b) (extractBody (DeclText b)) decls
      else if Kind b = BlockSyntax \<or> Kind b = BlockPackage \<or> Kind b = BlockOption
              \<or> Kind b = BlockImport then
        mapPut (BlockKind_String (Kind b) @ '':'' @ Name b) (DeclText b) decls
      else decls)"

definition extractDeclarations :: "Block list \<Rightarrow> (string \<times> string) list" where
  "extractDeclarations blocks = foldl declStep [] blocks"

datatype integrity_error =
  ScanningOriginal scan_error
  | ScanningSorted scan_error
  | CountMismatch nat nat
  | MissingDeclaration string
  | BodyDiffers string
  | UnexpectedDeclaration string

fun checkOriginal :: "(string \<times> string) list \<Rightarrow> (string \<times> string) list \<Rightarrow> integrity_error option" where
  "checkOriginal [] sortedDecls = None"
| "checkOriginal ((name, origBody) # rest) sortedDecls =
     (case map_of sortedDecls name of
        None \<Rightarrow> Some (MissingDeclaration name)
      | Some sortedBody \<Rightarrow>
          if origBody \<noteq> sortedBody then Some (BodyDiffers name)
          else checkOriginal rest sortedDecls)"

fun checkSorted :: "(string \<times> string) list \<Rightarrow> (string \<times> string) list \<Rightarrow> integrity_error option" where
  "checkSorted [] origDecls = None"
| "checkSorted ((name, sortedBody) # rest) origDecls =
     (case map_of origDecls name of
        None \<Rightarrow> Some (UnexpectedDeclaration name)
      | Some origBody \<Rightarrow> checkSorted rest origDecls)"

text \<open>The result \<open>Ok ()\<close> is the \<open>nil\<close> error.\<close>

definition verifyContentIntegrity :: "string \<Rightarrow> string \<Rightarrow> (integrity_error, unit) result" where
  "verifyContentIntegrity original sortedText =
     (case ScanFile original of
        Panic \<Rightarrow> Panic
      | Err e \<Rightarrow> Err (ScanningOriginal e)
      | Ok origBlocks \<Rightarrow>
          (case ScanFile sortedText of
             Panic \<Rightarrow> Panic
           | Err e \<Rightarrow> Err (ScanningSorted e)
           | Ok sortedBlocks \<Rightarrow>
               (let origDecls = extractDeclarations origBlocks;
                    sortedDecls = extractDeclarations sortedBlocks
                in if length origDecls \<noteq> length sortedDecls then
                     Err (CountMismatch (length origDecls) (length sortedDecls))
                   else
                     (case checkOriginal origDecls sortedDecls of
                        Some e \<Rightarrow> Err e
                      | None \<Rightarrow>
                          (case checkSorted sortedDecls origDecls of
                             Some e \<Rightarrow> Err e
                           | None \<Rightarrow> Ok ())))))"

section \<open>The sorter that classifies by incoming count\<close>

text \<open>
  The sources hold a second copy of the sorter.  It differs from \<open>Sort\<close> in four
  places: it does not strip section headers and has none to insert; it classifies a
  remaining block by its reference count alone (core from 2, helper at 1, unreferenced
  otherwise) and warns about an unreferenced block unless \<open>Quiet\<close> is set; it emits
  core and unreferenced blocks with their helpers, core first.  Its definitions carry the
  suffix \<open>_legacy\<close>.
\<close>

record classes_legacy =
  lg_store :: "Block list"
  lg_core :: "ptr list"
  lg_helper :: "ptr list"
  lg_unref :: "ptr list"
  lg_warnings :: "warning list"

definition classifyStep_legacy ::
  "Options \<Rightarrow> string list \<Rightarrow> string list \<Rightarrow> (string \<rightharpoonup> int) \<Rightarrow> (string \<Rightarrow> string list)
    \<Rightarrow> classes_legacy \<Rightarrow> ptr \<Rightarrow> classes_legacy" where
  "classifyStep_legacy opts svcNames rpcMsgNames refCounts refGraph st i =
     (let b = lg_store st ! i in
      if Name b \<in> set svcNames \<or> Name b \<in> set rpcMsgNames then st
      else if getCount refCounts (Name b) \<ge> 2 then
        st\<lparr>lg_store := (lg_store st)[i := b\<lparr>Section := SectionCore\<rparr>],
           lg_core := lg_core st @ [i]\<rparr>
      else if getCount refCounts (Name b) = 1 then
        st\<lparr>lg_store := (lg_store st)
              [i := b\<lparr>Section := SectionHelper,
                       Consumer := (if length (refGraph (Name b)) = 1 then hd (refGraph (Name b))
                                    else Consumer b)\<rparr>],
           lg_helper := lg_helper st @ [i]\<rparr>
      else
        st\<lparr>lg_store := (lg_store st)[i := b\<lparr>Section := SectionUnreferenced\<rparr>],
           lg_unref := lg_unref st @ [i],
           lg_warnings := (if \<not> Quiet opts then lg_warnings st @ [Unreferenced (Kind b) (Name b)]
                           else lg_warnings st)\<rparr>)"

definition processBlock_legacy :: "Options \<Rightarrow> Block \<Rightarrow> Block" where
  "processBlock_legacy opts b =
     (let b1 = processComments opts b in
      if \<not> PreserveDividers opts then b1\<lparr>Comments := stripDividerComments (Comments b1)\<rparr>
      else b1)"

definition prepareBlocks_legacy :: "Options \<Rightarrow> Block list \<Rightarrow> Block list" where
  "prepareBlocks_legacy opts blocks =
     map (\<lambda>b. if Kind b = BlockService then b\<lparr>RPCs := ExtractRPCs b\<rparr> else b)
       (map (\<lambda>b. if SortRPCs opts \<noteq> [] \<and> Kind b = BlockService
                  then b\<lparr>DeclText := SortRPCsInService (DeclText b) (SortRPCs opts)\<rparr> else b)
          (map (processBlock_legacy opts)
             (if PreserveDividers opts then attachDividerComments blocks else blocks)))"

definition orderBody_legacy ::
  "Options \<Rightarrow> Block list \<Rightarrow> (Block list \<times> ptr list \<times> warning list) option" where
  "orderBody_legacy opts body =
     (let bodyBlocks = [0..<length body];
          refCounts = BuildRefCounts body;
          refGraph = BuildRefGraph body
      in case classifyServiceAndRPC body bodyBlocks of
           (serviceBlocks, rpcMessages, remainingBlocks) \<Rightarrow>
             (let cl = foldl (classifyStep_legacy opts (map (\<lambda>i. Name (body ! i)) serviceBlocks)
                                (map (\<lambda>i. Name (body ! i)) rpcMessages) refCounts refGraph)
                         \<lparr>lg_store = body, lg_core = [], lg_helper = [], lg_unref = [],
                          lg_warnings = []\<rparr>
                         remainingBlocks;
                  store = lg_store cl;
                  helperMap = (\<lambda>consumer. SliceStable (ptrNameLess store)
                                 (filter (\<lambda>h. Consumer (store ! h) = consumer) (lg_helper cl)));
                  store1 = foldl (\<lambda>st i. st[i := (st ! i)\<lparr>Section := SectionService\<rparr>]) store
                             serviceBlocks;
                  depth = length (lg_helper cl) + 2
              in case (if SharedOrder opts = ''dependency''
                       then topoSortBlocks store (lg_core cl) bodyBlocks
                       else Some (SliceStable (ptrNameLess store) (lg_core cl))) of
                   None \<Rightarrow> None
                 | Some coreSorted \<Rightarrow>
                     (case emitRPCMessages depth helperMap
                             (store1, map (\<lambda>i. Name (store1 ! i)) serviceBlocks, serviceBlocks)
                             rpcMessages of
                        None \<Rightarrow> None
                      | Some (store2, st2) \<Rightarrow>
                          (case emitHelpers depth store2 helperMap st2 coreSorted of
                             None \<Rightarrow> None
                           | Some st3 \<Rightarrow>
                               (case emitHelpers depth store2 helperMap st3
                                       (SliceStable (ptrNameLess store) (lg_unref cl)) of
                                  None \<Rightarrow> None
                                | Some st4 \<Rightarrow>
                                    Some (store2,
                                          snd (foldl (emitPlain store2) st4 (lg_helper cl)),
                                          lg_warnings cl))))))"

definition sortBlocks_legacy ::
  "Options \<Rightarrow> Block list \<Rightarrow> (sort_error, string \<times> warning list) result" where
  "sortBlocks_legacy opts scanned =
     (let blocks = prepareBlocks_legacy opts scanned;
          syntaxBlock = lastOfKind BlockSyntax blocks;
          headerComments = (case syntaxBlock of None \<Rightarrow> [] | Some b \<Rightarrow> Comments b);
          packageBlock = lastOfKind BlockPackage blocks;
          optionBlocks = SliceStable nameLess (filter (\<lambda>b. Kind b = BlockOption) blocks);
          importBlocks = SliceStable nameLess (filter (\<lambda>b. Kind b = BlockImport) blocks);
          extendBlocks = filter (\<lambda>b. Kind b = BlockExtend) blocks
      in case orderBody_legacy opts (filter isBodyKind blocks) of
           None \<Rightarrow> Panic
         | Some (store, ordered, warnings) \<Rightarrow>
             Ok (Emit headerComments syntaxBlock packageBlock optionBlocks importBlocks
                   extendBlocks
                   (map (\<lambda>i. (if Annotate opts
                                then annotateBlocks store ordered
                                       (BuildRefGraph (filter isBodyKind blocks))
                                else store) ! i) ordered),
                 warnings))"

definition Sort_legacy :: "string \<Rightarrow> Options \<Rightarrow> (sort_error, string \<times> warning list) result" where
  "Sort_legacy content opts =
     (if isProto2 content then Err Proto2Error
      else
        (case ScanFile content of
           Panic \<Rightarrow> Panic
         | Err e \<Rightarrow> Err (ParseError e)
         | Ok blocks \<Rightarrow>
             if length blocks = 0 then Ok (content, []) else sortBlocks_legacy opts blocks))"

text \<open>What the sort of the entries is shown to achieve: \<open>strictWeak\<close> is the
  property of a \<open>less\<close> function that makes a stable sort well defined,
  \<open>groupedOrdered a b\<close> says that \<open>a\<close> may stand before \<open>b\<close> in grouped mode.\<close>

definition strictWeak :: "('a \<Rightarrow> 'a \<Rightarrow> bool) \<Rightarrow> bool" where
  "strictWeak lt =
     ((\<forall>a. \<not> lt a a) \<and> (\<forall>a b c. lt a b \<longrightarrow> lt b c \<longrightarrow> lt a c)
      \<and> (\<forall>a b c. lt a c \<longrightarrow> lt a b \<or> lt b c))"

definition pairLess :: "string \<times> string \<Rightarrow> string \<times> string \<Rightarrow> bool" where
  "pairLess p q = (if fst p \<noteq> fst q then strLess (fst p) (fst q) else strLess (snd p) (snd q))"

definition groupedKey :: "rpcEntry \<Rightarrow> string \<times> string" where
  "groupedKey e = (rpcGroupKey (entry_Name e), entry_Name e)"

definition groupedOrdered :: "rpcEntry \<Rightarrow> rpcEntry \<Rightarrow> bool" where
  "groupedOrdered a b =
     (strLess (rpcGroupKey (entry_Name a)) (rpcGroupKey (entry_Name b))
      \<or> (rpcGroupKey (entry_Name a) = rpcGroupKey (entry_Name b)
          \<and> (strLess (entry_Name a) (entry_Name b) \<or> entry_Name a = entry_Name b)))"

text \<open>The first line of the text that the dialect check looks at: the first one that,
  trimmed of white space, starts with \<open>syntax\<close>.\<close>

definition firstSyntaxLine :: "string \<Rightarrow> string option" where
  "firstSyntaxLine content = find (\<lambda>line. HasPrefix (TrimSpace line) ''syntax'') (SplitLines content)"






section \<open>Concrete inputs\<close>

definition stray_brace_input :: string where
  "stray_brace_input = ''message A {} }''"

definition grouped_service :: string where
  "grouped_service =
     ''service S {\<newline>  rpc GetUser(A) returns (B);\<newline>  rpc CreateUser(A) returns (B);\<newline>  rpc ListTrips(A) returns (B);\<newline>}''"

definition grouped_entries :: "rpcEntry list" where
  "grouped_entries =
     [\<lparr>entry_Comments = [], entry_RPCText = ''  rpc GetUser(A) returns (B);\<newline>'',
       entry_Name = ''GetUser''\<rparr>,
      \<lparr>entry_Comments = [], entry_RPCText = ''  rpc CreateUser(A) returns (B);\<newline>'',
       entry_Name = ''CreateUser''\<rparr>,
      \<lparr>entry_Comments = [], entry_RPCText = ''  rpc ListTrips(A) returns (B);\<newline>'',
       entry_Name = ''ListTrips''\<rparr>]"

definition ref_blocks :: "Block list" where
  "ref_blocks =
     [newBlock BlockMessage ''A'' []
        ''message A {\<newline>  B b = 1;\<newline>  T t = 2;\<newline>  U u1 = 3;\<newline>  U u2 = 4;\<newline>}'',
      newBlock BlockMessage ''B'' [] ''message B {\<newline>  A a = 1;\<newline>  T t = 2;\<newline>}'',
      newBlock BlockMessage ''T'' [] ''message T {\<newline>  T self = 1;\<newline>}'',
      newBlock BlockMessage ''U'' [] ''message U {}'',
      newBlock BlockMessage ''V'' []
        ''message V {\<newline>  V v = 1;\<newline>  other.pkg.T q = 2;\<newline>}'']"

definition dotted_input :: string where
  "dotted_input = ''message a.B {}service S { rpc Do(a.B) returns (a.B); }''"

definition dotted_blocks :: "Block list" where
  "dotted_blocks =
     [newBlock BlockMessage ''a.B'' [] ''message a.B {}'',
      newBlock BlockService ''S'' [] ''service S { rpc Do(a.B) returns (a.B); }'']"

definition cycle_input :: string where
  "cycle_input =
     ''syntax = \"proto3\";\<newline>message X { H h = 1; }\<newline>service S { rpc Do(Req) returns (Req); }\<newline>message Req { H h = 1; }\<newline>message H {}\<newline>''"

definition orphans_input :: string where
  "orphans_input =
     ''syntax = \"proto3\";\<newline>\<newline>message Orphan1 { string v = 1; }\<newline>message Orphan2 { string v = 1; }\<newline>''"

definition trailing_input :: string where
  "trailing_input = ''syntax = \"proto3\"; // x''"

definition commented_input :: string where
  "commented_input =
     ''// message Foo {}\<newline>// === X ===\<newline>// message Bar {}\<newline>message A {}\<newline>''"

definition same_line_input :: string where
  "same_line_input = ''syntax = \"proto3\"; option go_package = \"proto2\";''"



definition cycle_pass1 :: string where
  "cycle_pass1 =
     ''syntax = \"proto3\";\<newline>\<newline>service S { rpc Do(Req) returns (Req); }\<newline>\<newline>message Req { H h = 1; }\<newline>\<newline>message X { H h = 1; }\<newline>\<newline>message H {}\<newline>''"

definition cycle_pass2 :: string where
  "cycle_pass2 =
     ''syntax = \"proto3\";\<newline>\<newline>service S { rpc Do(Req) returns (Req); }\<newline>\<newline>message H {}\<newline>\<newline>message Req { H h = 1; }\<newline>\<newline>message X { H h = 1; }\<newline>''"

definition orphans_output :: string where
  "orphans_output =
     ''syntax = \"proto3\";\<newline>\<newline>message Orphan1 { string v = 1; }\<newline>\<newline>message Orphan2 { string v = 1; }\<newline>''"

definition trailing_output :: string where
  "trailing_output = ''syntax = \"proto3\"; // x\<newline>''"

definition dotted_field_blocks :: "Block list" where
  "dotted_field_blocks =
     [newBlock BlockMessage ''a.B'' [] ''message a.B {}'',
      newBlock BlockMessage ''C'' [] ''message C { a.B x = 1; }'']"

definition single_quoted_input :: string where
  "single_quoted_input = ''syntax = 'proto2';''"

definition grouped_output :: string where
  "grouped_output =
     ''service S {\<newline>  rpc ListTrips(A) returns (B);\<newline>  rpc CreateUser(A) returns (B);\<newline>  rpc GetUser(A) returns (B);\<newline>}''"

section \<open>The scanner: trailing comments, errors, bounds\<close>

text \<open>
  Claim C4 (trailing-comment absorption).  The specification says that an inline
  \<open>//\<close> comment after the terminator is absorbed into the declaration text but that
  the newline ending that line is neither included nor consumed.
  \<open>consumeTrailingComment\<close> calls \<open>skipToEndOfLine\<close>, which steps over the newline,
  and slices up to the new position: on the input below the text of the first declaration
  ends with the newline, and the comments of the second declaration are empty.
\<close>

theorem trailing_comment_absorbs_newline:
  "ScanFile ''message A {} // c\<newline>message B {}'' =
     Ok [newBlock BlockMessage ''A'' [] ''message A {} // c\<newline>'',
         newBlock BlockMessage ''B'' [] ''message B {}'']"
  by code_simp

lemma scanReaches_scan: "scanReaches c pos bs \<Longrightarrow> ScanFile c = scan c pos bs"
proof (induction rule: scanReaches.induct)
  case start
  show ?case by (simp add: ScanFile_def)
next
  case (step pos bs cm p b p')
  have "scan c pos bs = scan c p' (bs @ [b\<lparr>Comments := cm\<rparr>])"
    using step.hyps(2-5) by (subst scan.simps) simp
  with step.IH show ?case by simp
qed

lemma readDeclaration_no_keyword:
  assumes "\<not> atEnd c p" and "matchKeyword c p = Some []"
  shows "readDeclaration c p = Err (ExpectedKeyword p (take 40 (drop p c)))"
proof -
  from assms(1) have lt: "p < length c" by (simp add: atEnd_def)
  have "slice c p (if p + 40 > length c then length c else p + 40) = Some (take 40 (drop p c))"
    using lt by (auto simp: slice_def)
  with assms(2) show ?thesis by (simp add: readDeclaration_def)
qed

text \<open>
  Claim C5 (scan failure on malformed structure), as amended.  Whenever the loop of
  \<open>scan\<close> reaches, after the comments and white space, a position before the end of
  the input at which no declaration keyword followed by a non-identifier byte starts,
  \<open>ScanFile\<close> returns an error that carries that position and the next bytes of the
  input, at most 40 of them.
\<close>

theorem scan_error_on_unrecognized_keyword:
  assumes "scanReaches c pos bs" and "\<not> atEnd c pos"
    and "collectComments c pos [] = Some (cm, p)" and "\<not> atEnd c p"
    and "matchKeyword c p = Some []"
  shows "ScanFile c = Err (ExpectedKeyword p (take 40 (drop p c)))"
proof -
  have "ScanFile c = scan c pos bs" using assms(1) by (rule scanReaches_scan)
  also have "\<dots> = Err (ExpectedKeyword p (take 40 (drop p c)))"
    using assms(2-4) readDeclaration_no_keyword [OF assms(4,5)]
    by (subst scan.simps) simp
  finally show ?thesis .
qed

theorem scan_error_on_unrecognized_keyword_witness:
  "scanReaches stray_brace_input 12 [newBlock BlockMessage ''A'' [] ''message A {}'']
   \<and> \<not> atEnd stray_brace_input 12
   \<and> collectComments stray_brace_input 12 [] = Some ('' '', 13)
   \<and> \<not> atEnd stray_brace_input 13
   \<and> matchKeyword stray_brace_input 13 = Some []
   \<and> ScanFile stray_brace_input = Err (ExpectedKeyword 13 ''}'')"
proof -
  have r0: "scanReaches stray_brace_input 0 []" by (rule scanReaches.start)
  have a0: "\<not> atEnd stray_brace_input 0" by code_simp
  have c0: "collectComments stray_brace_input 0 [] = Some ([], 0)" by code_simp
  have d0: "readDeclaration stray_brace_input 0
              = Ok (newBlock BlockMessage ''A'' [] ''message A {}'', 12)" by code_simp
  have "scanReaches stray_brace_input 12
          ([] @ [(newBlock BlockMessage ''A'' [] ''message A {}'')\<lparr>Comments := []\<rparr>])"
    by (rule scanReaches.step [OF r0 a0 c0 a0 d0])
  then have r1: "scanReaches stray_brace_input 12 [newBlock BlockMessage ''A'' [] ''message A {}'']"
    by (simp add: newBlock_def)
  have a1: "\<not> atEnd stray_brace_input 12" by code_simp
  have c1: "collectComments stray_brace_input 12 [] = Some ('' '', 13)" by code_simp
  have a2: "\<not> atEnd stray_brace_input 13" by code_simp
  have m: "matchKeyword stray_brace_input 13 = Some []" by code_simp
  have t: "take 40 (drop 13 stray_brace_input) = ''}''" by code_simp
  from scan_error_on_unrecognized_keyword [OF r1 a1 c1 a2 m] t r1 a1 c1 a2 m
  show ?thesis by simp
qed

text \<open>
  Claim C5 as stated also promises an error for unmatched braces.  \<open>readBracedBlock\<close>
  has no failure: a declaration whose braces never return to depth zero extends to the end
  of the input and is returned as a block.
\<close>

theorem unmatched_brace_scans_without_error:
  "ScanFile ''message A {'' = Ok [newBlock BlockMessage ''A'' [] ''message A {'']"
  by code_simp

text \<open>
  Claim C10 (the scanner stays in bounds).  In \<open>skipString\<close> a backslash advances the
  position by two without a look at the length, so a string literal cut off right after a
  backslash leaves the position one beyond the end of the input; the next slice,
  \<open>s.content[start:s.pos]\<close> in \<open>readDeclaration\<close>, is out of range and the program
  panics.
\<close>

theorem scan_panics_on_trailing_escape:
  "ScanFile (''syntax \"'' @ [CHR 0x5C]) = Panic"
  by code_simp

section \<open>The grouped order of RPCs\<close>

lemma byte_inj: "byte x = byte y \<Longrightarrow> x = y"
  unfolding byte_def by (rule injD [OF inj_of_char])

lemma strLess_irrefl: "\<not> strLess a a"
  by (induction a) simp_all

lemma strLess_trans: "strLess a b \<Longrightarrow> strLess b c \<Longrightarrow> strLess a c"
proof (induction a b arbitrary: c rule: strLess.induct)
  case 1
  then show ?case by simp
next
  case (2 y ys)
  then show ?case by (cases c) simp_all
next
  case (3 x xs)
  then show ?case by simp
next
  case (4 x xs y ys)
  from "4.prems"(2) obtain z zs where c: "c = z # zs" by (cases c) simp_all
  from "4.prems"(1) have xy: "byte x < byte y \<or> (x = y \<and> strLess xs ys)" by simp
  from "4.prems"(2) c have yz: "byte y < byte z \<or> (y = z \<and> strLess ys zs)" by simp
  from xy yz "4.IH" [of zs] have "byte x < byte z \<or> (x = z \<and> strLess xs zs)" by auto
  with c show ?case by simp
qed


lemma strLess_total: "a \<noteq> b \<Longrightarrow> strLess a b \<or> strLess b a"
proof (induction a b rule: strLess.induct)
  case 1
  then show ?case by simp
next
  case (2 y ys)
  then show ?case by simp
next
  case (3 x xs)
  then show ?case by simp
next
  case (4 x xs y ys)
  show ?case
  proof (cases "x = y")
    case True
    with "4.prems" have "xs \<noteq> ys" by simp
    with "4.IH" True show ?thesis by simp
  next
    case False
    then have "byte x \<noteq> byte y" using byte_inj by blast
    then have "byte x < byte y \<or> byte y < byte x" by arith
    then show ?thesis by auto
  qed
qed

lemma strLess_asym: "strLess a b \<Longrightarrow> \<not> strLess b a"
  using strLess_trans [of a b a] strLess_irrefl [of a] by blast

lemma mset_insertStable: "mset (insertStable lt x ys) = add_mset x (mset ys)"
  by (induction ys) auto

lemma mset_SliceStable: "mset (SliceStable lt xs) = mset xs"
  by (induction xs) (auto simp: SliceStable_def mset_insertStable)

lemma set_insertStable: "set (insertStable lt x ys) = insert x (set ys)"
  by (induction ys) auto

lemma sorted_insertStable:
  assumes "strictWeak lt" and "sorted_wrt (\<lambda>a b. \<not> lt b a) ys"
  shows "sorted_wrt (\<lambda>a b. \<not> lt b a) (insertStable lt x ys)"
  using assms(2)
proof (induction ys)
  case Nil
  show ?case by simp
next
  case (Cons y ys)
  show ?case
  proof (cases "lt y x")
    case True
    from assms(1) True have "\<not> lt x y" unfolding strictWeak_def by blast
    with True Cons show ?thesis by (auto simp: set_insertStable)
  next
    case False
    have "\<not> lt z x" if "z \<in> set ys" for z
    proof
      assume "lt z x"
      with assms(1) have "lt z y \<or> lt y x" unfolding strictWeak_def by blast
      with False Cons.prems that show False by auto
    qed
    with False Cons.prems show ?thesis by auto
  qed
qed

lemma sorted_SliceStable:
  "strictWeak lt \<Longrightarrow> sorted_wrt (\<lambda>a b. \<not> lt b a) (SliceStable lt xs)"
  by (induction xs) (auto simp: SliceStable_def sorted_insertStable)

lemma filter_insertStable:
  assumes "strictWeak lt"
  shows "filter (\<lambda>e. \<not> lt e z \<and> \<not> lt z e) (insertStable lt x ys)
         = filter (\<lambda>e. \<not> lt e z \<and> \<not> lt z e) (x # ys)"
proof (induction ys)
  case Nil
  show ?case by simp
next
  case (Cons y ys)
  show ?case
  proof (cases "lt y x")
    case True
    have "\<not> ((\<not> lt x z \<and> \<not> lt z x) \<and> (\<not> lt y z \<and> \<not> lt z y))"
    proof
      assume h: "(\<not> lt x z \<and> \<not> lt z x) \<and> (\<not> lt y z \<and> \<not> lt z y)"
      from assms True have "lt y z \<or> lt z x" unfolding strictWeak_def by blast
      with h show False by blast
    qed
    with True Cons show ?thesis by auto
  next
    case False
    then show ?thesis by simp
  qed
qed

lemma stable_SliceStable:
  assumes "strictWeak lt"
  shows "filter (\<lambda>e. \<not> lt e z \<and> \<not> lt z e) (SliceStable lt xs)
         = filter (\<lambda>e. \<not> lt e z \<and> \<not> lt z e) xs"
proof (induction xs)
  case Nil
  show ?case by (simp add: SliceStable_def)
next
  case (Cons x xs)
  have "SliceStable lt (x # xs) = insertStable lt x (SliceStable lt xs)"
    by (simp add: SliceStable_def)
  with Cons filter_insertStable [OF assms, of z x "SliceStable lt xs"] show ?case by simp
qed

lemma pairLess_irrefl: "\<not> pairLess p p"
  by (simp add: pairLess_def strLess_irrefl)

lemma pairLess_trans:
  assumes "pairLess p q" and "pairLess q r"
  shows "pairLess p r"
proof (cases "fst p = fst q")
  case pq: True
  show ?thesis
  proof (cases "fst q = fst r")
    case True
    with pq assms show ?thesis by (auto simp: pairLess_def intro: strLess_trans)
  next
    case False
    with pq assms show ?thesis by (auto simp: pairLess_def)
  qed
next
  case pq: False
  with assms(1) have l1: "strLess (fst p) (fst q)" by (simp add: pairLess_def)
  show ?thesis
  proof (cases "fst q = fst r")
    case True
    with pq l1 show ?thesis by (simp add: pairLess_def)
  next
    case False
    with assms(2) have l2: "strLess (fst q) (fst r)" by (simp add: pairLess_def)
    from l1 l2 have l3: "strLess (fst p) (fst r)" by (rule strLess_trans)
    then have "fst p \<noteq> fst r" using strLess_irrefl by auto
    with l3 show ?thesis by (simp add: pairLess_def)
  qed
qed

lemma pairLess_total: "p \<noteq> q \<Longrightarrow> pairLess p q \<or> pairLess q p"
proof (cases "fst p = fst q")
  case True
  assume "p \<noteq> q"
  with True have "snd p \<noteq> snd q" by (simp add: prod_eq_iff)
  with True strLess_total [of "snd p" "snd q"] show ?thesis by (simp add: pairLess_def)
next
  case False
  with strLess_total [of "fst p" "fst q"] show ?thesis by (auto simp: pairLess_def)
qed

lemma pairLess_negtrans:
  assumes "pairLess p r"
  shows "pairLess p q \<or> pairLess q r"
proof (cases "p = q")
  case True
  with assms show ?thesis by simp
next
  case False
  then have "pairLess p q \<or> pairLess q p" by (rule pairLess_total)
  then show ?thesis
  proof
    assume "pairLess p q"
    then show ?thesis ..
  next
    assume "pairLess q p"
    from this assms have "pairLess q r" by (rule pairLess_trans)
    then show ?thesis ..
  qed
qed

lemma groupedLess_pairLess: "groupedLess a b = pairLess (groupedKey a) (groupedKey b)"
  by (simp add: groupedLess_def pairLess_def groupedKey_def)

lemma groupedLess_strictWeak: "strictWeak groupedLess"
  unfolding strictWeak_def groupedLess_pairLess
  using pairLess_irrefl pairLess_trans pairLess_negtrans by blast

lemma rpcGroupKey_loop_filter:
  "rpcGroupKey_loop ps name =
     (case filter (stripsPrefix name) ps of [] \<Rightarrow> name | p # _ \<Rightarrow> drop (length p) name)"
  by (induction ps) (auto simp: stripsPrefix_def)

lemma HasPrefix_shorter:
  assumes "HasPrefix name p" and "HasPrefix name q" and "length p \<le> length q"
  shows "HasPrefix q p"
proof -
  from assms(1,2) have "take (length p) name = p" "take (length q) name = q"
    by (simp_all add: HasPrefix_def)
  then have "take (length p) q = take (length p) (take (length q) name)" by simp
  also have "\<dots> = take (length p) name" using assms(3) by (simp add: min_def)
  finally show ?thesis using \<open>take (length p) name = p\<close> by (simp add: HasPrefix_def)
qed

lemma rpcVerbPrefixes_no_nesting:
  "\<forall>p \<in> set rpcVerbPrefixes. \<forall>q \<in> set rpcVerbPrefixes. HasPrefix q p \<longrightarrow> p = q"
  by code_simp

lemma stripsPrefix_unique:
  assumes "p \<in> set rpcVerbPrefixes" and "q \<in> set rpcVerbPrefixes"
    and "stripsPrefix name p" and "stripsPrefix name q"
  shows "p = q"
proof (cases "length p \<le> length q")
  case True
  with assms(3,4) have "HasPrefix q p" by (auto simp: stripsPrefix_def intro: HasPrefix_shorter)
  with assms(1,2) rpcVerbPrefixes_no_nesting show ?thesis by blast
next
  case False
  with assms(3,4) have "HasPrefix p q" by (auto simp: stripsPrefix_def intro: HasPrefix_shorter)
  with assms(1,2) rpcVerbPrefixes_no_nesting show ?thesis by blast
qed

lemma rpcGroupKey_strips:
  assumes "p \<in> set rpcVerbPrefixes" and "stripsPrefix name p"
  shows "rpcGroupKey name = drop (length p) name"
proof (cases "filter (stripsPrefix name) rpcVerbPrefixes")
  case Nil
  from assms have "p \<in> set (filter (stripsPrefix name) rpcVerbPrefixes)" by simp
  with Nil show ?thesis by simp
next
  case (Cons q qs)
  then have "q \<in> set (filter (stripsPrefix name) rpcVerbPrefixes)" by simp
  then have "q \<in> set rpcVerbPrefixes" "stripsPrefix name q" by simp_all
  with assms have "p = q" by (auto intro: stripsPrefix_unique)
  with Cons show ?thesis by (simp add: rpcGroupKey_def rpcGroupKey_loop_filter)
qed

lemma rpcGroupKey_keeps:
  assumes "\<forall>p \<in> set rpcVerbPrefixes. \<not> stripsPrefix name p"
  shows "rpcGroupKey name = name"
proof -
  from assms have "filter (stripsPrefix name) rpcVerbPrefixes = []" by (simp add: filter_empty_conv)
  then show ?thesis by (simp add: rpcGroupKey_def rpcGroupKey_loop_filter)
qed

lemma groupedLess_equiv_name:
  "(\<not> groupedLess e z \<and> \<not> groupedLess z e) = (entry_Name e = entry_Name z)"
proof
  assume "\<not> groupedLess e z \<and> \<not> groupedLess z e"
  then have "groupedKey e = groupedKey z"
    using pairLess_total [of "groupedKey e" "groupedKey z"] by (auto simp: groupedLess_pairLess)
  then show "entry_Name e = entry_Name z" by (simp add: groupedKey_def)
next
  assume "entry_Name e = entry_Name z"
  then have "groupedKey e = groupedKey z" by (simp add: groupedKey_def)
  then show "\<not> groupedLess e z \<and> \<not> groupedLess z e"
    by (simp add: groupedLess_pairLess pairLess_irrefl)
qed

lemma grouped_stable:
  "filter (\<lambda>e. entry_Name e = n) (SliceStable groupedLess es) = filter (\<lambda>e. entry_Name e = n) es"
  using stable_SliceStable [OF groupedLess_strictWeak,
      of "\<lparr>entry_Comments = [], entry_RPCText = [], entry_Name = n\<rparr>" es]
  by (simp add: groupedLess_equiv_name)

lemma not_groupedLess_ordered: "\<not> groupedLess b a \<Longrightarrow> groupedOrdered a b"
  using strLess_total [of "rpcGroupKey (entry_Name a)" "rpcGroupKey (entry_Name b)"]
    strLess_total [of "entry_Name a" "entry_Name b"]
  by (auto simp: groupedLess_def groupedOrdered_def split: if_splits)

lemma grouped_sorted: "sorted_wrt groupedOrdered (SliceStable groupedLess es)"
  using sorted_SliceStable [OF groupedLess_strictWeak, of es]
  by (rule sorted_wrt_mono_rel [rotated]) (simp add: not_groupedLess_ordered)

lemma SortRPCsInService_grouped:
  assumes "IndexByte declText (CHR ''{'') = Some openIdx"
    and "LastIndexByte declText (CHR ''}'') = Some closeIdx"
    and "openIdx < closeIdx"
    and "parseRPCEntries (take (closeIdx - (openIdx + 1)) (drop (openIdx + 1) declText))
           = (es, nonRPC)"
    and "1 < length es"
  shows "SortRPCsInService declText ''grouped''
           = rebuildService declText openIdx closeIdx nonRPC (SliceStable groupedLess es)"
  using assms by (simp add: SortRPCsInService_def)

lemma entryText_eq: "entryText = (\<lambda>e. entry_Comments e @ entry_RPCText e)"
  by (rule ext) (simp add: entryText_def)

text \<open>
  Claim C8 (grouped RPC sort key).  In grouped mode, for a service text with an opening
  brace before its last closing brace and more than one RPC entry, the text that
  \<open>SortRPCsInService\<close> returns is the text up to the opening brace, a newline, the lines
  that belong to no RPC, then the comments and the text of each entry in the order of a
  stable sort, and the text from the last closing brace on.  The order of the entries is a
  permutation of the entries, ordered by resource key and, for equal keys, by method name,
  and entries of the same name keep their order.  The resource key of a name is the name
  without the verb prefix of the list that it starts with, is longer than and continues
  after with an upper-case letter; at most one prefix of the list satisfies this, since no
  prefix of the list starts with another, so the first match in list order is also the
  longest match; a name with no such prefix is its own key.
\<close>

theorem grouped_rpc_sort_key:
  assumes "IndexByte declText (CHR ''{'') = Some openIdx"
    and "LastIndexByte declText (CHR ''}'') = Some closeIdx"
    and "openIdx < closeIdx"
    and "parseRPCEntries (take (closeIdx - (openIdx + 1)) (drop (openIdx + 1) declText))
           = (es, nonRPC)"
    and "1 < length es"
  shows "SortRPCsInService declText ''grouped''
           = take (openIdx + 1) declText @ [CHR 0x0A]
             @ concat (map (\<lambda>line. line @ [CHR 0x0A]) nonRPC)
             @ concat (map (\<lambda>e. entry_Comments e @ entry_RPCText e)
                         (SliceStable groupedLess es))
             @ drop closeIdx declText
         \<and> mset (SliceStable groupedLess es) = mset es
         \<and> sorted_wrt groupedOrdered (SliceStable groupedLess es)
         \<and> (\<forall>n. filter (\<lambda>e. entry_Name e = n) (SliceStable groupedLess es)
                  = filter (\<lambda>e. entry_Name e = n) es)
         \<and> (\<forall>name. (\<forall>p \<in> set rpcVerbPrefixes. stripsPrefix name p
                        \<longrightarrow> rpcGroupKey name = drop (length p) name)
                    \<and> ((\<forall>p \<in> set rpcVerbPrefixes. \<not> stripsPrefix name p)
                        \<longrightarrow> rpcGroupKey name = name))"
proof -
  have "SortRPCsInService declText ''grouped''
          = rebuildService declText openIdx closeIdx nonRPC (SliceStable groupedLess es)"
    by (rule SortRPCsInService_grouped [OF assms])
  also have "\<dots> = take (openIdx + 1) declText @ [CHR 0x0A]
             @ concat (map (\<lambda>line. line @ [CHR 0x0A]) nonRPC)
             @ concat (map (\<lambda>e. entry_Comments e @ entry_RPCText e)
                         (SliceStable groupedLess es))
             @ drop closeIdx declText"
    unfolding rebuildService_def by (simp add: entryText_eq)
  finally show ?thesis
    using mset_SliceStable [of groupedLess es]
      grouped_sorted [of es] grouped_stable [of _ es] rpcGroupKey_strips rpcGroupKey_keeps
    by blast
qed

theorem grouped_rpc_sort_key_witness:
  "IndexByte grouped_service (CHR ''{'') = Some 10
   \<and> LastIndexByte grouped_service (CHR ''}'') = Some 107
   \<and> (10::nat) < 107
   \<and> parseRPCEntries (take (107 - (10 + 1)) (drop (10 + 1) grouped_service))
       = (grouped_entries, [])
   \<and> 1 < length grouped_entries
   \<and> SortRPCsInService grouped_service ''grouped'' = grouped_output
   \<and> parseRPCEntries (take (107 - (10 + 1)) (drop (10 + 1) grouped_output))
       = (SliceStable groupedLess grouped_entries, [])
   \<and> sorted_wrt groupedOrdered (SliceStable groupedLess grouped_entries)
   \<and> map entry_Name (SliceStable groupedLess grouped_entries)
       = [''ListTrips'', ''CreateUser'', ''GetUser'']
   \<and> map rpcGroupKey [''ListTrips'', ''CreateUser'', ''GetUser'']
       = [''Trips'', ''User'', ''User'']"
proof -
  have h1: "IndexByte grouped_service (CHR ''{'') = Some 10" by code_simp
  have h2: "LastIndexByte grouped_service (CHR ''}'') = Some 107" by code_simp
  have h3: "(10::nat) < 107" by simp
  have h4: "parseRPCEntries (take (107 - (10 + 1)) (drop (10 + 1) grouped_service))
              = (grouped_entries, [])" by code_simp
  have h5: "1 < length grouped_entries" by code_simp
  note t = grouped_rpc_sort_key [OF h1 h2 h3 h4 h5]
  have tx: "take (10 + 1) grouped_service @ [CHR 0x0A]
             @ concat (map (\<lambda>line. line @ [CHR 0x0A]) [])
             @ concat (map (\<lambda>e. entry_Comments e @ entry_RPCText e)
                         (SliceStable groupedLess grouped_entries))
             @ drop 107 grouped_service = grouped_output" by code_simp
  have out: "SortRPCsInService grouped_service ''grouped'' = grouped_output"
    using conjunct1 [OF t] tx by (rule trans)
  have rt: "parseRPCEntries (take (107 - (10 + 1)) (drop (10 + 1) grouped_output))
                = (SliceStable groupedLess grouped_entries, [])" by code_simp
  have srt: "sorted_wrt groupedOrdered (SliceStable groupedLess grouped_entries)"
    using t by blast
  have names: "map entry_Name (SliceStable groupedLess grouped_entries)
                 = [''ListTrips'', ''CreateUser'', ''GetUser'']" by code_simp
  have keys: "map rpcGroupKey [''ListTrips'', ''CreateUser'', ''GetUser'']
                = [''Trips'', ''User'', ''User'']" by code_simp
  show ?thesis by (intro conjI) (rule h1 h2 h3 h4 h5 out rt srt names keys)+
qed

section \<open>Reference counts\<close>

lemma refStep_fold:
  "getCount (counts (foldl (refStep D name) st refs)) t
     = getCount (counts st) t
       + (if t \<in> set refs \<and> t \<noteq> name \<and> t \<in> set D \<and> t \<notin> set (seen st) then 1 else 0)
   \<and> set (seen (foldl (refStep D name) st refs))
     = set (seen st) \<union> {r \<in> set refs. r \<noteq> name \<and> r \<in> set D}
   \<and> set (uses (foldl (refStep D name) st refs))
     = set (uses st)
       \<union> {(name, r) | r. name \<noteq> [] \<and> r \<in> set refs \<and> r \<noteq> name \<and> r \<in> set D
                        \<and> r \<notin> set (seen st)}"
proof (induction refs arbitrary: st)
  case Nil
  show ?case by simp
next
  case (Cons r refs)
  let ?st1 = "refStep D name st r"
  have c1: "getCount (counts ?st1) t
              = getCount (counts st) t
                + (if t = r \<and> t \<noteq> name \<and> t \<in> set D \<and> t \<notin> set (seen st) then 1 else 0)"
    by (auto simp: refStep_def getCount_def)
  have s1: "set (seen ?st1) = set (seen st) \<union> {x. x = r \<and> r \<noteq> name \<and> r \<in> set D}"
    by (auto simp: refStep_def)
  have u1: "set (uses ?st1)
              = set (uses st)
                \<union> {(name, x) | x. x = r \<and> name \<noteq> [] \<and> r \<noteq> name \<and> r \<in> set D
                                  \<and> r \<notin> set (seen st)}"
    by (auto simp: refStep_def)
  note ih = Cons.IH [of ?st1]
  have "getCount (counts (foldl (refStep D name) ?st1 refs)) t
     = getCount (counts st) t
       + (if t \<in> set (r # refs) \<and> t \<noteq> name \<and> t \<in> set D \<and> t \<notin> set (seen st) then 1 else 0)"
    using ih c1 s1 by auto
  moreover have "set (seen (foldl (refStep D name) ?st1 refs))
     = set (seen st) \<union> {x \<in> set (r # refs). x \<noteq> name \<and> x \<in> set D}"
    using ih s1 by auto
  moreover have "set (uses (foldl (refStep D name) ?st1 refs))
     = set (uses st)
       \<union> {(name, x) | x. name \<noteq> [] \<and> x \<in> set (r # refs) \<and> x \<noteq> name \<and> x \<in> set D
                        \<and> x \<notin> set (seen st)}"
    using ih s1 u1 by auto
  ultimately show ?case by simp
qed

lemma blockStep_counts:
  "getCount (counts (blockStep D st b)) t
     = getCount (counts st) t + (if references D b t then 1 else 0)"
  using refStep_fold [of D "Name b" "st\<lparr>seen := []\<rparr>" "blockRefs b" t]
  by (simp add: blockStep_def references_def)

lemma blockStep_uses:
  "set (uses (blockStep D st b))
     = set (uses st) \<union> {(Name b, r) | r. Name b \<noteq> [] \<and> references D b r}"
  using refStep_fold [of D "Name b" "st\<lparr>seen := []\<rparr>" "blockRefs b"]
  by (auto simp: blockStep_def references_def)

lemma blocks_fold_counts:
  "getCount (counts (foldl (blockStep D) st blocks)) t
     = getCount (counts st) t + int (length (filter (\<lambda>b. references D b t) blocks))"
  by (induction blocks arbitrary: st) (simp_all add: blockStep_counts)

lemma blocks_fold_uses:
  "set (uses (foldl (blockStep D) st blocks))
     = set (uses st) \<union> {(Name b, r) | b r. b \<in> set blocks \<and> Name b \<noteq> [] \<and> references D b r}"
proof (induction blocks arbitrary: st)
  case Nil
  show ?case by simp
next
  case (Cons b blocks)
  show ?case using Cons.IH [of "blockStep D st b"] by (auto simp: blockStep_uses)
qed

lemma getCount_raise2:
  "getCount (raise2 m k) t = (if t = k then max (getCount m k) 2 else getCount m t)"
  by (auto simp: raise2_def getCount_def)

lemma boost_fold:
  "getCount (foldl (\<lambda>m (a, b). if (b, a) \<in> U then raise2 (raise2 m a) b else m) m ps) t
     = (if \<exists>(a, b) \<in> set ps. (b, a) \<in> U \<and> (t = a \<or> t = b) then max (getCount m t) 2
        else getCount m t)"
proof (induction ps arbitrary: m)
  case Nil
  show ?case by simp
next
  case (Cons p ps)
  obtain a b where p: "p = (a, b)" by (cases p)
  let ?m1 = "if (b, a) \<in> U then raise2 (raise2 m a) b else m"
  have m1: "getCount ?m1 t
              = (if (b, a) \<in> U \<and> (t = a \<or> t = b) then max (getCount m t) 2 else getCount m t)"
    by (auto simp: getCount_raise2)
  have "foldl (\<lambda>m (a, b). if (b, a) \<in> U then raise2 (raise2 m a) b else m) m (p # ps)
          = foldl (\<lambda>m (a, b). if (b, a) \<in> U then raise2 (raise2 m a) b else m) ?m1 ps"
    by (simp add: p)
  then show ?case using Cons.IH [of ?m1] m1 by (auto simp: p)
qed

lemma getCount_boostCycles:
  "getCount (boostCycles us m) t
     = (if \<exists>x. (t, x) \<in> set us \<and> (x, t) \<in> set us then max (getCount m t) 2 else getCount m t)"
proof -
  have "(\<exists>(a, b) \<in> set us. (b, a) \<in> set us \<and> (t = a \<or> t = b))
          = (\<exists>x. (t, x) \<in> set us \<and> (x, t) \<in> set us)"
    by auto
  then show ?thesis using boost_fold [of "set us" m us t] by (simp add: boostCycles_def)
qed

lemma BuildRefCounts_eq:
  "getCount (BuildRefCounts blocks) t
     = (if \<exists>x. (t, x) \<in> usesPairs blocks \<and> (x, t) \<in> usesPairs blocks
        then max (baseCount blocks t) 2 else baseCount blocks t)"
proof -
  let ?init = "\<lparr>seen = [], counts = Map.empty, uses = []\<rparr>"
  let ?st = "foldl (blockStep (definedNames blocks)) ?init blocks"
  have u: "set (uses ?st) = usesPairs blocks"
    using blocks_fold_uses [of "definedNames blocks" ?init blocks] by (simp add: usesPairs_def)
  have c: "getCount (counts ?st) t = baseCount blocks t"
    using blocks_fold_counts [of "definedNames blocks" ?init blocks t]
    by (simp add: baseCount_def getCount_def)
  have "getCount (BuildRefCounts blocks) t = getCount (boostCycles (uses ?st) (counts ?st)) t"
    by (simp add: BuildRefCounts_def Let_def)
  also have "\<dots> = (if \<exists>x. (t, x) \<in> set (uses ?st) \<and> (x, t) \<in> set (uses ?st)
                      then max (getCount (counts ?st) t) 2 else getCount (counts ?st) t)"
    by (rule getCount_boostCycles)
  also have "\<dots> = (if \<exists>x. (t, x) \<in> usesPairs blocks \<and> (x, t) \<in> usesPairs blocks
                      then max (baseCount blocks t) 2 else baseCount blocks t)"
    unfolding u c ..
  finally show ?thesis .
qed


lemma usesPairs_referencesByName: "((a, b) \<in> usesPairs blocks) = referencesByName blocks a b"
  by (auto simp: usesPairs_def referencesByName_def)

lemma inCycle_usesPairs:
  "inCycle blocks t = (\<exists>x. (t, x) \<in> usesPairs blocks \<and> (x, t) \<in> usesPairs blocks)"
proof
  assume "inCycle blocks t"
  then show "\<exists>x. (t, x) \<in> usesPairs blocks \<and> (x, t) \<in> usesPairs blocks"
    by (auto simp: inCycle_def usesPairs_referencesByName)
next
  assume "\<exists>x. (t, x) \<in> usesPairs blocks \<and> (x, t) \<in> usesPairs blocks"
  then obtain x where x: "referencesByName blocks t x" "referencesByName blocks x t"
    by (auto simp: usesPairs_referencesByName)
  from x(1) obtain d where "d \<in> set blocks" "x \<in> set (blockRefs d)"
    by (auto simp: referencesByName_def references_def)
  then have "x \<in> set (concat (map blockRefs blocks))" by auto
  with x show "inCycle blocks t" by (auto simp: inCycle_def)
qed

lemma BuildRefCounts_count:
  "getCount (BuildRefCounts blocks) t
     = (if inCycle blocks t then max (baseCount blocks t) 2 else baseCount blocks t)"
  by (simp add: BuildRefCounts_eq inCycle_usesPairs)

lemma filter_two:
  assumes "i < j" and "j < length xs" and "P (xs ! i)" and "P (xs ! j)"
  shows "2 \<le> length (filter P xs)"
proof -
  have xs: "xs = take j xs @ xs ! j # drop (Suc j) xs"
    using assms(2) by (simp add: id_take_nth_drop)
  have "xs ! i \<in> set (take j xs)"
    using assms(1,2) by (metis in_set_conv_nth length_take min.absorb2 nth_take less_imp_le)
  with assms(3) have "filter P (take j xs) \<noteq> []" by (auto simp: filter_empty_conv)
  then have "1 \<le> length (filter P (take j xs))" by (cases "filter P (take j xs)") simp_all
  moreover have "length (filter P xs)
      = length (filter P (take j xs)) + length (filter P (xs ! j # drop (Suc j) xs))"
    by (subst xs) simp
  ultimately show ?thesis using assms(4) by simp
qed

lemma addType_no_dot:
  "\<forall>t \<in> set ts. \<not> Contains t ''.'' \<Longrightarrow> \<forall>t \<in> set (foldl addType ts xs). \<not> Contains t ''.''"
proof (induction xs arbitrary: ts)
  case Nil
  then show ?case by simp
next
  case (Cons x xs)
  from Cons.prems have "\<forall>t \<in> set (addType ts x). \<not> Contains t ''.''"
    by (auto simp: addType_def)
  then show ?case using Cons.IH by simp
qed

lemma oneof_no_dot:
  "\<forall>t \<in> set ts. \<not> Contains t ''.'' \<Longrightarrow>
   \<forall>t \<in> set (foldl (\<lambda>types m. foldl addType types (f m)) ts ms). \<not> Contains t ''.''"
proof (induction ms arbitrary: ts)
  case Nil
  then show ?case by simp
next
  case (Cons m ms)
  from Cons.prems have "\<forall>t \<in> set (foldl addType ts (f m)). \<not> Contains t ''.''"
    by (rule addType_no_dot)
  then show ?case using Cons.IH by simp
qed

lemma ExtractFieldTypes_no_dot: "t \<in> set (ExtractFieldTypes b) \<Longrightarrow> \<not> Contains t ''.''"
proof -
  assume t: "t \<in> set (ExtractFieldTypes b)"
  have e: "\<forall>t \<in> set ([] :: string list). \<not> Contains t ''.''" by simp
  show ?thesis
  proof (cases "Kind b \<noteq> BlockMessage \<and> Kind b \<noteq> BlockExtend")
    case True
    with t show ?thesis by (simp add: ExtractFieldTypes_def)
  next
    case False
    let ?body = "extractBody (DeclText b)"
    let ?t1 = "foldl addType [] (map (\<lambda>m. submatch m 1) (FindAllStringSubmatch fieldRe ?body))"
    let ?t2 = "foldl addType ?t1 (map (\<lambda>m. submatch m 1) (FindAllStringSubmatch mapFieldRe ?body))"
    let ?f = "\<lambda>m. map (\<lambda>v. submatch v 1) (FindAllStringSubmatch oneofVariantRe (submatch m 1))"
    have "\<forall>t \<in> set ?t1. \<not> Contains t ''.''" using e by (rule addType_no_dot)
    then have "\<forall>t \<in> set ?t2. \<not> Contains t ''.''" by (rule addType_no_dot)
    then have "\<forall>t \<in> set (foldl (\<lambda>types m. foldl addType types (?f m)) ?t2
                          (FindAllStringSubmatch oneofRe ?body)). \<not> Contains t ''.''"
      by (rule oneof_no_dot)
    moreover from False have "ExtractFieldTypes b
        = foldl (\<lambda>types m. foldl addType types (?f m)) ?t2 (FindAllStringSubmatch oneofRe ?body)"
      by (auto simp: ExtractFieldTypes_def Let_def)
    ultimately show ?thesis using t by simp
  qed
qed

lemma count_nonzero_defined:
  assumes "getCount (BuildRefCounts blocks) t \<noteq> 0"
  shows "t \<in> set (definedNames blocks)"
proof (cases "inCycle blocks t")
  case True
  then obtain x where "referencesByName blocks x t" by (auto simp: inCycle_def)
  then show ?thesis by (auto simp: referencesByName_def references_def)
next
  case False
  with assms have "baseCount blocks t \<noteq> 0" by (simp add: BuildRefCounts_count)
  then have "filter (\<lambda>b. references (definedNames blocks) b t) blocks \<noteq> []"
    by (auto simp: baseCount_def)
  then obtain b where "references (definedNames blocks) b t"
    by (auto simp: filter_empty_conv)
  then show ?thesis by (simp add: references_def)
qed

text \<open>
  The rules of the counts that hold for every block list.  A type referenced by two
  distinct declarations gets a count of at least 2; a type referenced by exactly one
  declaration, however many of its fields name it, gets count 1 unless it is in a direct
  cycle; a type that no declaration other than itself references gets count 0; two names
  whose declarations reference each other both get a count of at least 2; a name extracted
  from the fields of a message or extend block never contains a dot, and only names
  defined in the file ever get a non-zero count.
\<close>

theorem ref_count_rules:
  "(\<forall>i j t. i < j \<and> j < length blocks \<and> references (definedNames blocks) (blocks ! i) t
             \<and> references (definedNames blocks) (blocks ! j) t
             \<longrightarrow> 2 \<le> getCount (BuildRefCounts blocks) t)
   \<and> (\<forall>t. length (filter (\<lambda>b. references (definedNames blocks) b t) blocks) = 1
           \<and> \<not> inCycle blocks t
           \<longrightarrow> getCount (BuildRefCounts blocks) t = 1)
   \<and> (\<forall>t. (\<forall>b \<in> set blocks. t \<in> set (blockRefs b) \<longrightarrow> Name b = t)
           \<longrightarrow> getCount (BuildRefCounts blocks) t = 0)
   \<and> (\<forall>a b. referencesByName blocks a b \<and> referencesByName blocks b a
             \<longrightarrow> 2 \<le> getCount (BuildRefCounts blocks) a
                 \<and> 2 \<le> getCount (BuildRefCounts blocks) b)
   \<and> (\<forall>b t. t \<in> set (ExtractFieldTypes b) \<longrightarrow> \<not> Contains t ''.'')
   \<and> (\<forall>t. getCount (BuildRefCounts blocks) t \<noteq> 0 \<longrightarrow> t \<in> set (definedNames blocks))"
proof (intro conjI allI impI)
  fix i j t
  assume "i < j \<and> j < length blocks \<and> references (definedNames blocks) (blocks ! i) t
          \<and> references (definedNames blocks) (blocks ! j) t"
  then have "2 \<le> baseCount blocks t"
    using filter_two [of i j blocks "\<lambda>b. references (definedNames blocks) b t"]
    by (simp add: baseCount_def)
  then show "2 \<le> getCount (BuildRefCounts blocks) t" by (simp add: BuildRefCounts_count)
next
  fix t
  assume "length (filter (\<lambda>b. references (definedNames blocks) b t) blocks) = 1
          \<and> \<not> inCycle blocks t"
  then show "getCount (BuildRefCounts blocks) t = 1"
    by (simp add: BuildRefCounts_count baseCount_def)
next
  fix t
  assume h: "\<forall>b \<in> set blocks. t \<in> set (blockRefs b) \<longrightarrow> Name b = t"
  then have "filter (\<lambda>b. references (definedNames blocks) b t) blocks = []"
    by (auto simp: filter_empty_conv references_def)
  then have "baseCount blocks t = 0" by (simp add: baseCount_def)
  moreover from h have "\<not> inCycle blocks t"
    by (auto simp: inCycle_def referencesByName_def references_def)
  ultimately show "getCount (BuildRefCounts blocks) t = 0" by (simp add: BuildRefCounts_count)
next
  fix a b
  assume h: "referencesByName blocks a b \<and> referencesByName blocks b a"
  then have "inCycle blocks a" "inCycle blocks b"
    by (auto simp: inCycle_usesPairs usesPairs_referencesByName)
  then show "2 \<le> getCount (BuildRefCounts blocks) a" "2 \<le> getCount (BuildRefCounts blocks) b"
    by (simp_all add: BuildRefCounts_count)
next
  fix b t
  assume "t \<in> set (ExtractFieldTypes b)"
  then show "\<not> Contains t ''.''" by (rule ExtractFieldTypes_no_dot)
next
  fix t
  assume "getCount (BuildRefCounts blocks) t \<noteq> 0"
  then show "t \<in> set (definedNames blocks)" by (rule count_nonzero_defined)
qed

theorem ref_count_rules_witness:
  "(0::nat) < 1 \<and> 1 < length ref_blocks
   \<and> references (definedNames ref_blocks) (ref_blocks ! 0) ''T''
   \<and> references (definedNames ref_blocks) (ref_blocks ! 1) ''T''
   \<and> 2 \<le> getCount (BuildRefCounts ref_blocks) ''T''
   \<and> length (filter (\<lambda>b. references (definedNames ref_blocks) b ''U'') ref_blocks) = 1
   \<and> \<not> inCycle ref_blocks ''U''
   \<and> getCount (BuildRefCounts ref_blocks) ''U'' = 1
   \<and> filter (\<lambda>b. ''V'' \<in> set (blockRefs b) \<and> Name b \<noteq> ''V'') ref_blocks = []
   \<and> ''V'' \<in> set (blockRefs (ref_blocks ! 4))
   \<and> getCount (BuildRefCounts ref_blocks) ''V'' = 0
   \<and> referencesByName ref_blocks ''A'' ''B'' \<and> referencesByName ref_blocks ''B'' ''A''
   \<and> 2 \<le> getCount (BuildRefCounts ref_blocks) ''A''
   \<and> 2 \<le> getCount (BuildRefCounts ref_blocks) ''B''
   \<and> ''T'' \<in> set (ExtractFieldTypes (ref_blocks ! 0)) \<and> \<not> Contains ''T'' ''.''
   \<and> getCount (BuildRefCounts ref_blocks) ''T'' \<noteq> 0 \<and> ''T'' \<in> set (definedNames ref_blocks)"
proof -
  note rules = ref_count_rules [of ref_blocks]
  have p1: "(0::nat) < 1 \<and> 1 < length ref_blocks
      \<and> references (definedNames ref_blocks) (ref_blocks ! 0) ''T''
      \<and> references (definedNames ref_blocks) (ref_blocks ! 1) ''T''" by code_simp
  have p2: "length (filter (\<lambda>b. references (definedNames ref_blocks) b ''U'') ref_blocks) = 1
      \<and> \<not> inCycle ref_blocks ''U''" by code_simp
  have q3: "filter (\<lambda>b. ''V'' \<in> set (blockRefs b) \<and> Name b \<noteq> ''V'') ref_blocks = []"
    by code_simp
  then have p3: "\<forall>b \<in> set ref_blocks. ''V'' \<in> set (blockRefs b) \<longrightarrow> Name b = ''V''"
    by (auto simp: filter_empty_conv)
  have p3': "''V'' \<in> set (blockRefs (ref_blocks ! 4))" by code_simp
  have p4: "referencesByName ref_blocks ''A'' ''B'' \<and> referencesByName ref_blocks ''B'' ''A''"
    by code_simp
  have p5: "''T'' \<in> set (ExtractFieldTypes (ref_blocks ! 0))" by code_simp
  from rules p1 have c1: "2 \<le> getCount (BuildRefCounts ref_blocks) ''T''" by blast
  from rules p2 have c2: "getCount (BuildRefCounts ref_blocks) ''U'' = 1" by blast
  from rules p3 have c3: "getCount (BuildRefCounts ref_blocks) ''V'' = 0" by blast
  from rules p4 have c4: "2 \<le> getCount (BuildRefCounts ref_blocks) ''A''"
    "2 \<le> getCount (BuildRefCounts ref_blocks) ''B''" by blast+
  from rules p5 have c5: "\<not> Contains ''T'' ''.''" by blast
  from c1 have c6: "getCount (BuildRefCounts ref_blocks) ''T'' \<noteq> 0" by simp
  with rules have c7: "''T'' \<in> set (definedNames ref_blocks)" by blast
  from p1 p2 q3 p3' p4 p5 c1 c2 c3 c4 c5 c6 c7 show ?thesis by blast
qed

text \<open>
  Claim C3 (reference counting rules of \<open>BuildRefCounts\<close>).  The specification says that
  a package-qualified, dotted reference never increments the count of a local type.
  \<open>ExtractFieldTypes\<close> skips every field type that contains a dot, but the case of a
  service in \<open>BuildRefCounts\<close> compares the request and response types of an RPC with
  the defined names as they are written, dots included, and the scanner accepts a dotted
  name after \<open>message\<close>.  On the first input below the dotted type of the RPC
  increments the count of the type declared under that name; on the second the same dotted
  name, as the type of a field, is skipped and the count is 0.
\<close>

theorem dotted_rpc_reference_counts:
  "ScanFile dotted_input = Ok dotted_blocks
   \<and> Contains ''a.B'' ''.''
   \<and> ''a.B'' \<in> set (blockRefs (dotted_blocks ! 1))
   \<and> getCount (BuildRefCounts dotted_blocks) ''a.B'' = 1
   \<and> ScanFile ''message a.B {}message C { a.B x = 1; }'' = Ok dotted_field_blocks
   \<and> blockRefs (dotted_field_blocks ! 1) = []
   \<and> getCount (BuildRefCounts dotted_field_blocks) ''a.B'' = 0"
  by code_simp

section \<open>The whole transform\<close>


lemma isProto2_loop_find:
  "isProto2_loop ls
     = (case find (\<lambda>line. HasPrefix (TrimSpace line) ''syntax'') ls of
          None \<Rightarrow> False | Some line \<Rightarrow> Contains (TrimSpace line) ''\"proto2\"'')"
  by (induction ls) simp_all

lemma isProto2_firstSyntaxLine:
  "isProto2 c = (case firstSyntaxLine c of
                   None \<Rightarrow> False | Some line \<Rightarrow> Contains (TrimSpace line) ''\"proto2\"'')"
  unfolding isProto2_def firstSyntaxLine_def by (rule isProto2_loop_find)

lemma sortBlocks_not_Err: "sortBlocks opts bs \<noteq> Err e"
  unfolding sortBlocks_def Let_def by (simp split: option.splits prod.splits)




























text \<open>
  What the dialect check decides, for every input.  \<open>Sort\<close> returns the
  unsupported-dialect error exactly when the first line of the input that, trimmed of white
  space, starts with \<open>syntax\<close> contains the text \<open>"proto2"\<close>, quotes included,
  anywhere on that line; the check reads lines of text, before the scanner runs and whatever
  the scanner would say.  Every other error of \<open>Sort\<close> is the parse error that wraps the
  error of the scanner, a scanner error is always returned so wrapped, and the two kinds are
  different constructors.  In Go the output returned with an error is the empty string; the
  result \<open>Err\<close> of the model has no output.
\<close>

theorem dialect_error_discrimination:
  "(Sort c opts = Err Proto2Error)
     = (case firstSyntaxLine c of
          None \<Rightarrow> False | Some line \<Rightarrow> Contains (TrimSpace line) ''\"proto2\"'')
   \<and> (Sort c opts = Err e \<and> e \<noteq> Proto2Error \<longrightarrow> (\<exists>se. ScanFile c = Err se \<and> e = ParseError se))
   \<and> (Sort c opts \<noteq> Err Proto2Error \<and> ScanFile c = Err se \<longrightarrow> Sort c opts = Err (ParseError se))
   \<and> ParseError se \<noteq> Proto2Error"
proof -
  have a: "(Sort c opts = Err Proto2Error) = isProto2 c"
    unfolding Sort_def using sortBlocks_not_Err [of opts _ Proto2Error]
    by (auto split: result.splits)
  have b: "Sort c opts = Err e \<and> e \<noteq> Proto2Error \<longrightarrow> (\<exists>se. ScanFile c = Err se \<and> e = ParseError se)"
    unfolding Sort_def using sortBlocks_not_Err [of opts _ e]
    by (auto split: result.splits if_splits)
  have c: "Sort c opts \<noteq> Err Proto2Error \<and> ScanFile c = Err se \<longrightarrow> Sort c opts = Err (ParseError se)"
    unfolding Sort_def by (auto split: result.splits if_splits)
  show ?thesis using a b c isProto2_firstSyntaxLine [of c] by simp
qed

theorem dialect_error_discrimination_witness:
  "firstSyntaxLine same_line_input = Some same_line_input
   \<and> Contains (TrimSpace same_line_input) ''\"proto2\"''
   \<and> Sort same_line_input defaultOptions = Err Proto2Error
   \<and> ScanFile stray_brace_input = Err (ExpectedKeyword 13 ''}'')
   \<and> Sort stray_brace_input defaultOptions = Err (ParseError (ExpectedKeyword 13 ''}''))
   \<and> ParseError (ExpectedKeyword 13 ''}'') \<noteq> Proto2Error"
proof -
  have f: "firstSyntaxLine same_line_input = Some same_line_input" by code_simp
  have k: "Contains (TrimSpace same_line_input) ''\"proto2\"''" by code_simp
  have s: "ScanFile stray_brace_input = Err (ExpectedKeyword 13 ''}'')" by code_simp
  have n: "firstSyntaxLine stray_brace_input = None" by code_simp
  have 1: "Sort same_line_input defaultOptions = Err Proto2Error"
    using dialect_error_discrimination [of same_line_input defaultOptions] f k by simp
  have "Sort stray_brace_input defaultOptions \<noteq> Err Proto2Error"
    using dialect_error_discrimination [of stray_brace_input defaultOptions] n by simp
  then have 2: "Sort stray_brace_input defaultOptions = Err (ParseError (ExpectedKeyword 13 ''}''))"
    using dialect_error_discrimination
            [of stray_brace_input defaultOptions _ "ExpectedKeyword 13 ''}''"] s
    by blast
  show ?thesis using f k s 1 2 by simp
qed

text \<open>
  Claim C6 (dialect-error discrimination).  The specification says that \<open>Sort\<close> returns
  the unsupported-dialect error exactly when the first syntax line declares proto2, and
  \<open>isProto2\<close> is documented to check that the file declares proto2.  It looks for the
  text \<open>"proto2"\<close> in double quotes anywhere on the line.  The first input below
  declares proto3, and the scanner reads it so, but an option on the same line has the
  value \<open>"proto2"\<close>: \<open>Sort\<close> returns the unsupported-dialect error.  The second input
  declares proto2 in single quotes, and the scanner reads it so: the check does not see it
  and \<open>Sort\<close> returns a sorted text.
\<close>

theorem proto3_line_rejected_as_proto2:
  "ScanFile same_line_input
     = Ok [newBlock BlockSyntax ''proto3'' [] ''syntax = \"proto3\";'',
           newBlock BlockOption ''go_package'' '' '' ''option go_package = \"proto2\";'']
   \<and> isProto2 same_line_input
   \<and> Sort same_line_input defaultOptions = Err Proto2Error
   \<and> ScanFile single_quoted_input
       = Ok [newBlock BlockSyntax ''proto2'' [] single_quoted_input]
   \<and> \<not> isProto2 single_quoted_input
   \<and> Sort single_quoted_input defaultOptions = Ok (single_quoted_input @ [CHR 0x0A], [])"
  by code_simp




text \<open>
  Claim C9 (unreferenced-type warning).  The specification says that \<open>Sort\<close> returns a
  warning naming the kind and the identifier of each unreferenced message or enum, unless
  the quiet option is set.  \<open>Sort\<close> declares the list of warnings and returns it, but
  nothing is ever appended to it: with the quiet option not set, the two unreferenced
  messages of the input below are placed last and no warning is returned.
\<close>

theorem unreferenced_types_not_warned:
  "Quiet defaultOptions = False
   \<and> Sort orphans_input defaultOptions = Ok (orphans_output, [])"
  by code_simp

text \<open>The older variant of \<open>Sort\<close> returns the two warnings on the same input, and none
  with the quiet option.\<close>

lemma legacy_warns_unreferenced:
  "Sort_legacy orphans_input defaultOptions
     = Ok (orphans_output,
           [Unreferenced BlockMessage ''Orphan1'', Unreferenced BlockMessage ''Orphan2''])
   \<and> Sort_legacy orphans_input (defaultOptions\<lparr>Quiet := True\<rparr>) = Ok (orphans_output, [])"
  by code_simp

text \<open>
  Claim C1 (idempotence).  The specification says that \<open>Sort\<close> applied to its own output
  returns that output.  A helper whose consumer is a request or response type is written
  just before it and every other helper at the end of the file, and the consumer is the
  first declaration that references the helper in the order of the input.  In the input
  below \<open>H\<close> is referenced by \<open>X\<close> and by \<open>Req\<close>, and \<open>X\<close> comes first:
  \<open>H\<close> is written at the end.  In the output \<open>Req\<close>, a request type, comes before
  \<open>X\<close>: the second pass takes \<open>Req\<close> as the consumer and writes \<open>H\<close> before it.
\<close>

theorem sort_twice_differs:
  "Sort cycle_input defaultOptions = Ok (cycle_pass1, [])
   \<and> Sort cycle_pass1 defaultOptions = Ok (cycle_pass2, [])
   \<and> cycle_pass1 \<noteq> cycle_pass2"
  by code_simp

text \<open>The older variant of \<open>Sort\<close> is not idempotent either when commented-out code is
  stripped: a section divider between two commented-out declarations protects them in the
  first pass and is then removed, so that the second pass strips them.\<close>

lemma legacy_sort_twice_differs:
  "Sort_legacy commented_input (defaultOptions\<lparr>StripCommented := True\<rparr>)
     = Ok (''\<newline>// message Foo {}\<newline>// message Bar {}\<newline>message A {}\<newline>'',
           [Unreferenced BlockMessage ''A''])
   \<and> Sort_legacy ''\<newline>// message Foo {}\<newline>// message Bar {}\<newline>message A {}\<newline>''
         (defaultOptions\<lparr>StripCommented := True\<rparr>)
     = Ok (''\<newline>message A {}\<newline>'', [Unreferenced BlockMessage ''A''])"
  by code_simp

text \<open>
  Claim C2 (content integrity).  The specification says that
  \<open>verifyContentIntegrity\<close> accepts the output of \<open>Sort\<close> for every input on which
  \<open>Sort\<close> succeeds.  The input below ends with a trailing comment and no newline.  The
  output ends with a newline, which the scanner takes into the text of the declaration
  when it scans the output (the absorption of the newline shown for claim C4): the body
  of the syntax statement differs between the input and the output, and the check fails.
\<close>

theorem sort_breaks_content_integrity:
  "Sort trailing_input defaultOptions = Ok (trailing_output, [])
   \<and> verifyContentIntegrity trailing_input trailing_output
       = Err (BodyDiffers ''syntax:proto3\"; // x'')"
  by code_simp

end
